theory Spec2Isabelle
  imports Complex_Main
begin

section \<open>The cache-aside layer of the MCP server\<close>

text \<open>
  The model follows \<^verbatim>\<open>src/mcp-server/src/scripts/generate-types.ts\<close> (the server part,
  from line 82 on). The module-level variable \<^verbatim>\<open>redis\<close>, the Redis server behind it, the
  log and the persistent store are the fields of one state record that every operation
  takes and returns. A rejected promise or a \<^verbatim>\<open>throw\<close> is the \<open>Inl\<close> of a sum.
  A request is run as a whole, except that a read can be taken in the two parts that
  \<^verbatim>\<open>await fetcher()\<close> separates (\<open>begin_read\<close>, \<open>end_read\<close>), so that a write can be
  served between them.
\<close>

subsection \<open>Errors\<close>

text \<open>
  The error classes that reach the error handler: \<^verbatim>\<open>new Error(error.message)\<close> thrown
  by a fetcher or a handler, the rejection of a Redis command, the \<^verbatim>\<open>SyntaxError\<close> of
  \<^verbatim>\<open>JSON.parse\<close>, the error of a request that fails the schema of its route, and the
  \<^verbatim>\<open>TypeError\<close> of a method call on \<^verbatim>\<open>null\<close>.
\<close>

datatype error =
    Error string
  | RedisError string
  | SyntaxError string
  | ValidationError string
  | TypeError string

fun message :: "error \<Rightarrow> string" where
  "message (Error m) = m"
| "message (RedisError m) = m"
| "message (SyntaxError m) = m"
| "message (ValidationError m) = m"
| "message (TypeError m) = m"

subsection \<open>The Redis server\<close>

text \<open>
  The commands the program sends. An entry of the server is a key, its value and the
  instant at which it expires; \<open>clock\<close> is the server's time in seconds. \<open>fault\<close> says
  which commands the server (or the connection) fails, and with which message.
\<close>

datatype command =
    GET string
  | SETEX string int string
  | KEYS string
  | DEL "string list"
  | PING

record redis_server =
  entries :: "(string \<times> string \<times> nat) list"
  clock :: nat
  fault :: "command \<Rightarrow> string option"

definition live :: "redis_server \<Rightarrow> (string \<times> string \<times> nat) list" where
  "live b = filter (\<lambda>(k, v, expiry). clock b < expiry) (entries b)"

definition lookup :: "redis_server \<Rightarrow> string \<Rightarrow> string option" where
  "lookup b k = map_option fst (map_of (live b) k)"

text \<open>
  Glob-style matching of \<^verbatim>\<open>KEYS\<close> (Redis' \<^verbatim>\<open>stringmatchlen\<close>, case sensitive):
  \<^verbatim>\<open>*\<close> matches any sequence, \<^verbatim>\<open>?\<close> one character, \<^verbatim>\<open>[...]\<close> a class with
  \<^verbatim>\<open>^\<close> for negation and \<^verbatim>\<open>a-z\<close> for a range, and a backslash quotes the next
  character. \<open>class_scan\<close> reads a class up to its closing bracket and returns whether
  the character was found together with the pattern that follows the class; the bounds
  of a range are compared as byte values.
\<close>

definition in_range :: "char \<Rightarrow> char \<Rightarrow> char \<Rightarrow> bool" where
  "in_range a b c =
     (let lo = min (of_char a :: nat) (of_char b); hi = max (of_char a :: nat) (of_char b)
      in lo \<le> of_char c \<and> of_char c \<le> hi)"

fun class_scan :: "string \<Rightarrow> char \<Rightarrow> bool \<Rightarrow> bool \<times> string" where
  "class_scan [] c m = (m, [])"
| "class_scan [p] c m = (if p = CHR '']'' then (m, []) else (m \<or> p = c, []))"
| "class_scan (p # q # ps) c m =
     (if p = CHR 0x5C then class_scan ps c (m \<or> q = c)
      else if p = CHR '']'' then (m, q # ps)
      else if q = CHR ''-'' \<and> ps \<noteq> [] then class_scan (tl ps) c (m \<or> in_range p (hd ps) c)
      else class_scan (q # ps) c (m \<or> p = c))"

definition skip_stars :: "string \<Rightarrow> string" where
  "skip_stars p = dropWhile (\<lambda>c. c = CHR ''*'') p"

function stringmatchlen :: "string \<Rightarrow> string \<Rightarrow> bool" where
  "stringmatchlen [] s = (s = [])"
| "stringmatchlen (p # ps) [] = False"
| "stringmatchlen (p # ps) (c # s) =
     (if p = CHR ''*'' then
        (if skip_stars ps = [] then True
         else stringmatchlen (skip_stars ps) (c # s)
              \<or> (s \<noteq> [] \<and> stringmatchlen (CHR ''*'' # skip_stars ps) s))
      else if p = CHR ''?'' then
        (if s = [] then skip_stars ps = [] else stringmatchlen ps s)
      else if p = CHR ''['' then
        (let neg = (ps \<noteq> [] \<and> hd ps = CHR ''^'');
             (found, rest) = class_scan (if neg then tl ps else ps) c False
         in if found = neg then False
            else if s = [] then skip_stars rest = [] else stringmatchlen rest s)
      else if p = CHR 0x5C \<and> ps \<noteq> [] then
        (if hd ps \<noteq> c then False
         else if s = [] then skip_stars (tl ps) = [] else stringmatchlen (tl ps) s)
      else
        (if p \<noteq> c then False
         else if s = [] then skip_stars ps = [] else stringmatchlen ps s))"
  by pat_completeness auto
termination
  by (relation "measures [\<lambda>(p, s). length s, \<lambda>(p, s). length p]")
     (auto simp: skip_stars_def intro: le_imp_less_Suc length_dropWhile_le)

text \<open>
  \<^verbatim>\<open>KEYS\<close> answers the live keys that match; the pattern \<^verbatim>\<open>*\<close> alone is the server's
  shortcut for all keys.
\<close>

definition matching :: "redis_server \<Rightarrow> string \<Rightarrow> string list" where
  "matching b pattern =
     filter (\<lambda>k. pattern = ''*'' \<or> stringmatchlen pattern k) (remdups (map fst (live b)))"

definition store :: "string \<Rightarrow> int \<Rightarrow> string \<Rightarrow> redis_server \<Rightarrow> redis_server" where
  "store k ttl v b =
     b\<lparr>entries := (k, v, clock b + nat ttl) # filter (\<lambda>e. fst e \<noteq> k) (entries b)\<rparr>"

definition delete :: "string list \<Rightarrow> redis_server \<Rightarrow> redis_server" where
  "delete ks b = b\<lparr>entries := filter (\<lambda>e. fst e \<notin> set ks) (entries b)\<rparr>"

subsection \<open>The state of the process\<close>

text \<open>
  \<open>redis\<close> is the module-level variable of the source: \<open>None\<close> is \<^verbatim>\<open>null\<close>, \<open>Some Client\<close>
  the ioredis client. \<open>issued\<close> records every command sent through the client, oldest
  first, and \<open>app_log\<close> the lines written to the log or the console. \<open>world\<close> is whatever the fetchers
  and the Supabase queries read and change: a fetcher is a function from the world to
  its outcome and the new world. \<open>fetches\<close> counts the invocations of fetchers.
\<close>

datatype client = Client

datatype log_line =
    Cache_hit string
  | Cache_set string
  | Cache_invalidated nat string
  | Redis_error_warning string
  | Redis_not_available
  | Error_logged error

record 'w state =
  redis :: "client option"
  server :: redis_server
  issued :: "command list"
  app_log :: "log_line list"
  fetches :: nat
  world :: 'w

definition info :: "log_line \<Rightarrow> 'w state \<Rightarrow> 'w state" where
  "info l st = st\<lparr>app_log := app_log st @ [l]\<rparr>"

text \<open>
  Sending a command: it is recorded, and either fails with the server's fault or has its
  effect. \<^verbatim>\<open>SETEX\<close> refuses a time to live that is not positive, and \<^verbatim>\<open>DEL\<close> refuses an
  empty list of keys.
\<close>

definition send :: "command \<Rightarrow> 'w state \<Rightarrow> 'w state" where
  "send c st = st\<lparr>issued := issued st @ [c]\<rparr>"

definition redis_get :: "string \<Rightarrow> 'w state \<Rightarrow> (error + string option) \<times> 'w state" where
  "redis_get k st =
     (case fault (server st) (GET k) of
        Some m \<Rightarrow> (Inl (RedisError m), send (GET k) st)
      | None \<Rightarrow> (Inr (lookup (server st) k), send (GET k) st))"

definition redis_setex :: "string \<Rightarrow> int \<Rightarrow> string \<Rightarrow> 'w state \<Rightarrow> (error + unit) \<times> 'w state" where
  "redis_setex k ttl v st =
     (case fault (server st) (SETEX k ttl v) of
        Some m \<Rightarrow> (Inl (RedisError m), send (SETEX k ttl v) st)
      | None \<Rightarrow>
          if ttl \<le> 0
          then (Inl (RedisError ''ERR invalid expire time in 'setex' command''),
                send (SETEX k ttl v) st)
          else (Inr (), send (SETEX k ttl v) (st\<lparr>server := store k ttl v (server st)\<rparr>)))"

definition redis_keys :: "string \<Rightarrow> 'w state \<Rightarrow> (error + string list) \<times> 'w state" where
  "redis_keys pattern st =
     (case fault (server st) (KEYS pattern) of
        Some m \<Rightarrow> (Inl (RedisError m), send (KEYS pattern) st)
      | None \<Rightarrow> (Inr (matching (server st) pattern), send (KEYS pattern) st))"

definition redis_del :: "string list \<Rightarrow> 'w state \<Rightarrow> (error + nat) \<times> 'w state" where
  "redis_del ks st =
     (case fault (server st) (DEL ks) of
        Some m \<Rightarrow> (Inl (RedisError m), send (DEL ks) st)
      | None \<Rightarrow>
          if ks = []
          then (Inl (RedisError ''ERR wrong number of arguments for 'del' command''),
                send (DEL ks) st)
          else (Inr (length (filter (\<lambda>k. lookup (server st) k \<noteq> None) (remdups ks))),
                send (DEL ks) (st\<lparr>server := delete ks (server st)\<rparr>)))"

definition redis_ping :: "'w state \<Rightarrow> (error + string) \<times> 'w state" where
  "redis_ping st =
     (case fault (server st) PING of
        Some m \<Rightarrow> (Inl (RedisError m), send PING st)
      | None \<Rightarrow> (Inr ''PONG'', send PING st))"

subsection \<open>Connection life cycle (lines 104-125)\<close>

text \<open>
  At start the client is created and pinged; a failing ping leaves \<open>redis\<close> at \<^verbatim>\<open>null\<close>.
  \<open>on_error\<close> is the listener of the client's \<^verbatim>\<open>error\<close> event.
\<close>

definition startup :: "redis_server \<Rightarrow> 'w \<Rightarrow> 'w state" where
  "startup b w =
     (let st = \<lparr>redis = Some Client, server = b, issued = [], app_log = [], fetches = 0,
                world = w\<rparr>
      in case redis_ping st of
           (Inl e, st') \<Rightarrow> (info Redis_not_available st')\<lparr>redis := None\<rparr>
         | (Inr pong, st') \<Rightarrow> st')"

definition on_error :: "string \<Rightarrow> 'w state \<Rightarrow> 'w state" where
  "on_error m st = (info (Redis_error_warning m) st)\<lparr>redis := None\<rparr>"

subsection \<open>Utility functions (lines 215-245)\<close>

text \<open>
  \<^verbatim>\<open>JSON.stringify\<close> and \<^verbatim>\<open>JSON.parse\<close> belong to the JavaScript runtime; they are
  parameters of the model. \<open>stringify\<close> gives the string that is sent to the server and
  \<open>parse\<close> either the value or the \<^verbatim>\<open>SyntaxError\<close> it throws.
\<close>

record 'v JSON =
  stringify :: "'v \<Rightarrow> string"
  parse :: "string \<Rightarrow> error + 'v"

text \<open>The default of the parameter \<^verbatim>\<open>ttl: number = 300\<close>; \<open>None\<close> is an omitted argument.\<close>

definition ttl_or_default :: "int option \<Rightarrow> int" where
  "ttl_or_default ttl = (case ttl of None \<Rightarrow> 300 | Some t \<Rightarrow> t)"

text \<open>\<^verbatim>\<open>if (cached)\<close>: \<^verbatim>\<open>null\<close> and the empty string are falsy.\<close>

fun truthy :: "string option \<Rightarrow> bool" where
  "truthy None = False"
| "truthy (Some s) = (s \<noteq> [])"

definition invoke :: "('w \<Rightarrow> (error + 'v) \<times> 'w) \<Rightarrow> 'w state \<Rightarrow> (error + 'v) \<times> 'w state" where
  "invoke fetcher st =
     (case fetcher (world st) of (r, w) \<Rightarrow> (r, st\<lparr>fetches := Suc (fetches st), world := w\<rparr>))"

definition getCachedOrFetch ::
  "'v JSON \<Rightarrow> string \<Rightarrow> ('w \<Rightarrow> (error + 'v) \<times> 'w) \<Rightarrow> int option \<Rightarrow> 'w state
     \<Rightarrow> (error + 'v) \<times> 'w state" where
  "getCachedOrFetch J cacheKey fetcher ttl st =
     (if redis st = None then invoke fetcher st
      else
        case redis_get cacheKey st of
          (Inl e, st1) \<Rightarrow> (Inl e, st1)
        | (Inr cached, st1) \<Rightarrow>
            if truthy cached then (parse J (the cached), info (Cache_hit cacheKey) st1)
            else
              (case invoke fetcher st1 of
                 (Inl e, st2) \<Rightarrow> (Inl e, st2)
               | (Inr data, st2) \<Rightarrow>
                   (case redis_setex cacheKey (ttl_or_default ttl) (stringify J data) st2 of
                      (Inl e, st3) \<Rightarrow> (Inl e, st3)
                    | (Inr ok, st3) \<Rightarrow> (Inr data, info (Cache_set cacheKey) st3))))"

definition invalidateCache :: "string \<Rightarrow> 'w state \<Rightarrow> (error + unit) \<times> 'w state" where
  "invalidateCache pattern st =
     (if redis st = None then (Inr (), st)
      else
        case redis_keys pattern st of
          (Inl e, st1) \<Rightarrow> (Inl e, st1)
        | (Inr keys, st1) \<Rightarrow>
            if length keys > 0 then
              (case redis_del keys st1 of
                 (Inl e, st2) \<Rightarrow> (Inl e, st2)
               | (Inr n, st2) \<Rightarrow> (Inr (), info (Cache_invalidated (length keys) pattern) st2))
            else (Inr (), st1))"

text \<open>
  A read taken in two parts. \<open>begin_read\<close> runs the call up to the point where it is
  suspended at \<^verbatim>\<open>await fetcher()\<close>: the fetcher has acted on the world and its outcome is
  on its way. \<open>end_read\<close> is the rest of the call, run when that outcome arrives; it reads
  the variable \<open>redis\<close> again, and \<^verbatim>\<open>redis.setex\<close> on \<^verbatim>\<open>null\<close> is a \<^verbatim>\<open>TypeError\<close>.
\<close>

datatype 'v progress = Finished "error + 'v" | Fetching "error + 'v"

definition begin_read ::
  "'v JSON \<Rightarrow> string \<Rightarrow> ('w \<Rightarrow> (error + 'v) \<times> 'w) \<Rightarrow> 'w state \<Rightarrow> 'v progress \<times> 'w state" where
  "begin_read J cacheKey fetcher st =
     (if redis st = None then (case invoke fetcher st of (r, st') \<Rightarrow> (Finished r, st'))
      else
        case redis_get cacheKey st of
          (Inl e, st1) \<Rightarrow> (Finished (Inl e), st1)
        | (Inr cached, st1) \<Rightarrow>
            if truthy cached
            then (Finished (parse J (the cached)), info (Cache_hit cacheKey) st1)
            else (case invoke fetcher st1 of (r, st2) \<Rightarrow> (Fetching r, st2)))"

definition end_read ::
  "'v JSON \<Rightarrow> string \<Rightarrow> int option \<Rightarrow> error + 'v \<Rightarrow> 'w state \<Rightarrow> (error + 'v) \<times> 'w state" where
  "end_read J cacheKey ttl r st =
     (case r of
        Inl e \<Rightarrow> (Inl e, st)
      | Inr data \<Rightarrow>
          if redis st = None
          then (Inl (TypeError ''Cannot read properties of null (reading 'setex')''), st)
          else
            (case redis_setex cacheKey (ttl_or_default ttl) (stringify J data) st of
               (Inl e, st3) \<Rightarrow> (Inl e, st3)
             | (Inr ok, st3) \<Rightarrow> (Inr data, info (Cache_set cacheKey) st3)))"

subsection \<open>Identifiers\<close>

text \<open>
  The format \<^verbatim>\<open>uuid\<close> of the routes' schemas, as the validator reads it (case
  insensitive): eight, four, four, four and twelve hexadecimal digits separated by
  hyphens, with an optional prefix \<^verbatim>\<open>urn:uuid:\<close>. \<^verbatim>\<open>nanoid()\<close> gives 21 characters out of
  the letters, the digits, the underscore and the hyphen.
\<close>

definition hex_digit :: "char \<Rightarrow> bool" where
  "hex_digit c = (c \<in> set ''0123456789abcdefABCDEF'')"

definition uuid_body :: "string \<Rightarrow> bool" where
  "uuid_body s =
     list_all2 (\<lambda>p c. if p = CHR ''-'' then c = CHR ''-'' else hex_digit c)
       ''xxxxxxxx-xxxx-xxxx-xxxx-xxxxxxxxxxxx'' s"

definition same_letter :: "char \<Rightarrow> char \<Rightarrow> bool" where
  "same_letter p c =
     (c = p \<or> ((97::nat) \<le> of_char p \<and> of_char p \<le> (122::nat)
               \<and> of_char c + (32::nat) = of_char p))"

definition uuid_format :: "string \<Rightarrow> bool" where
  "uuid_format s =
     (uuid_body s \<or> (list_all2 same_letter ''urn:uuid:'' (take 9 s) \<and> uuid_body (drop 9 s)))"

definition nanoid_format :: "string \<Rightarrow> bool" where
  "nanoid_format s =
     (length s = 21
      \<and> list_all (\<lambda>c. c \<in> set ''ABCDEFGHIJKLMNOPQRSTUVWXYZabcdefghijklmnopqrstuvwxyz0123456789_-'') s)"

definition must_match_uuid :: "string \<Rightarrow> error" where
  "must_match_uuid path =
     ValidationError (path @ '' must match format '' @ [CHR 0x22] @ ''uuid'' @ [CHR 0x22])"

subsection \<open>Route handlers (lines 247-609) and the error handler (lines 690-696)\<close>

text \<open>
  A Supabase query answers \<^verbatim>\<open>{ data, error, count }\<close>; \<open>error\<close> holds the message of the
  error object, \<open>None\<close> for \<^verbatim>\<open>null\<close>. The query itself is a parameter of each handler: a
  function on the world, built from the body of the request once the body has passed its
  schema. A handler returns \<^verbatim>\<open>{ data }\<close> or \<^verbatim>\<open>{ data, meta }\<close>. A request whose
  parameters fail the schema of the route does not reach the handler: its validation
  error goes to the error handler at once.
\<close>

record 'd response =
  data :: 'd
  error :: "string option"
  count :: "nat option"

record meta =
  total :: nat
  limit :: real
  offset :: real

datatype 'd result = Result 'd "meta option"

datatype 'd body = Payload "'d result" | Null_body | Failure string string

record 'd reply =
  code :: nat
  body :: "'d body"

type_synonym ('w, 'd) query = "'w \<Rightarrow> 'd response \<times> 'w"

definition errorHandler :: "error \<Rightarrow> 'w state \<Rightarrow> 'd reply \<times> 'w state" where
  "errorHandler e st =
     (\<lparr>code = 500, body = Failure ''Internal Server Error'' (message e)\<rparr>,
      info (Error_logged e) st)"

text \<open>What the client of a route receives: the handler's reply, or the error handler's.\<close>

definition respond :: "(error + 'd reply) \<times> 'w state \<Rightarrow> 'd reply \<times> 'w state" where
  "respond r = (case r of (Inl e, st) \<Rightarrow> errorHandler e st | (Inr rep, st) \<Rightarrow> (rep, st))"

text \<open>
  The fetcher of the two user routes: \<^verbatim>\<open>if (error) throw new Error(error.message);
  return { data }\<close>.
\<close>

definition fetch_data :: "('w, 'd) query \<Rightarrow> 'w \<Rightarrow> (error + 'd result) \<times> 'w" where
  "fetch_data q w =
     (case q w of (res, w') \<Rightarrow>
        (case error res of
           Some m \<Rightarrow> (Inl (Error m), w')
         | None \<Rightarrow> (Inr (Result (data res) None), w')))"

definition reply_200 :: "(error + 'd result) \<times> 'w state \<Rightarrow> (error + 'd reply) \<times> 'w state" where
  "reply_200 r =
     (case r of
        (Inl e, st) \<Rightarrow> (Inl e, st)
      | (Inr v, st) \<Rightarrow> (Inr \<lparr>code = 200, body = Payload v\<rparr>, st))"

definition get_users ::
  "'d result JSON \<Rightarrow> ('w, 'd) query \<Rightarrow> 'w state \<Rightarrow> (error + 'd reply) \<times> 'w state" where
  "get_users J select_all st =
     reply_200 (getCachedOrFetch J ''users:all'' (fetch_data select_all) None st)"

definition get_user ::
  "'d result JSON \<Rightarrow> string \<Rightarrow> ('w, 'd) query \<Rightarrow> 'w state \<Rightarrow> (error + 'd reply) \<times> 'w state" where
  "get_user J uid select_single st =
     (if \<not> uuid_format uid then (Inl (must_match_uuid ''params/id''), st)
      else reply_200 (getCachedOrFetch J (''user:'' @ uid) (fetch_data select_single) None st))"

text \<open>
  The create: \<open>new_id\<close> is what \<^verbatim>\<open>nanoid()\<close> has given, and the row is inserted under it.
\<close>

definition post_users ::
  "string \<Rightarrow> (string \<Rightarrow> ('w, 'd) query) \<Rightarrow> 'w state \<Rightarrow> (error + 'd reply) \<times> 'w state" where
  "post_users new_id insert_single st =
     (case insert_single new_id (world st) of (res, w) \<Rightarrow>
        (case error res of
           Some m \<Rightarrow> (Inl (Error m), st\<lparr>world := w\<rparr>)
         | None \<Rightarrow>
             (case invalidateCache ''users:*'' (st\<lparr>world := w\<rparr>) of
                (Inl e, st1) \<Rightarrow> (Inl e, st1)
              | (Inr u, st1) \<Rightarrow>
                  (Inr \<lparr>code = 201, body = Payload (Result (data res) None)\<rparr>, st1))))"

definition patch_user ::
  "string \<Rightarrow> ('w, 'd) query \<Rightarrow> 'w state \<Rightarrow> (error + 'd reply) \<times> 'w state" where
  "patch_user uid update_single st =
     (if \<not> uuid_format uid then (Inl (must_match_uuid ''params/id''), st)
      else
        case update_single (world st) of (res, w) \<Rightarrow>
          (case error res of
             Some m \<Rightarrow> (Inl (Error m), st\<lparr>world := w\<rparr>)
           | None \<Rightarrow>
               (case invalidateCache (''user:'' @ uid) (st\<lparr>world := w\<rparr>) of
                  (Inl e, st1) \<Rightarrow> (Inl e, st1)
                | (Inr u, st1) \<Rightarrow>
                    (case invalidateCache ''users:*'' st1 of
                       (Inl e, st2) \<Rightarrow> (Inl e, st2)
                     | (Inr u', st2) \<Rightarrow>
                         (Inr \<lparr>code = 200, body = Payload (Result (data res) None)\<rparr>, st2)))))"

definition delete_user ::
  "string \<Rightarrow> ('w, 'd) query \<Rightarrow> 'w state \<Rightarrow> (error + 'd reply) \<times> 'w state" where
  "delete_user uid delete_eq st =
     (if \<not> uuid_format uid then (Inl (must_match_uuid ''params/id''), st)
      else
        case delete_eq (world st) of (res, w) \<Rightarrow>
          (case error res of
             Some m \<Rightarrow> (Inl (Error m), st\<lparr>world := w\<rparr>)
           | None \<Rightarrow>
               (case invalidateCache (''user:'' @ uid) (st\<lparr>world := w\<rparr>) of
                  (Inl e, st1) \<Rightarrow> (Inl e, st1)
                | (Inr u, st1) \<Rightarrow>
                    (case invalidateCache ''users:*'' st1 of
                       (Inl e, st2) \<Rightarrow> (Inl e, st2)
                     | (Inr u', st2) \<Rightarrow> (Inr \<lparr>code = 204, body = Null_body\<rparr>, st2)))))"

text \<open>
  The orders listing. The query string gives \<^verbatim>\<open>user_id\<close> (a UUID), \<^verbatim>\<open>status\<close>, \<^verbatim>\<open>limit\<close>
  (a number from 1 to 100, 20 when absent) and \<^verbatim>\<open>offset\<close> (a number from 0 on, 0 when
  absent); a JavaScript number is taken as the real it stands for, and a text that is no
  number is \<open>Not_a_number\<close>. \<open>check_query\<close> is the schema of the query string.
  \<open>stringify_query\<close> is \<^verbatim>\<open>JSON.stringify\<close> on the object of the four. The filters are
  applied when truthy; the range \<^verbatim>\<open>offset\<close> to \<^verbatim>\<open>offset + limit - 1\<close> is computed, in
  floating point, inside the query, which is given the offset and the limit. The entry
  is kept 60 seconds.
\<close>

datatype number_param = Omitted | Number real | Not_a_number

record orders_query =
  user_id :: "string option"
  status :: "string option"
  query_limit :: number_param
  query_offset :: number_param

definition or_default :: "number_param \<Rightarrow> real \<Rightarrow> real" where
  "or_default x d = (case x of Number v \<Rightarrow> v | _ \<Rightarrow> d)"

definition check_query :: "orders_query \<Rightarrow> error option" where
  "check_query q =
     (if (case user_id q of None \<Rightarrow> False | Some u \<Rightarrow> \<not> uuid_format u)
      then Some (must_match_uuid ''querystring/user_id'')
      else if query_limit q = Not_a_number
      then Some (ValidationError ''querystring/limit must be number'')
      else if (case query_limit q of Number x \<Rightarrow> x < 1 | _ \<Rightarrow> False)
      then Some (ValidationError ''querystring/limit must be >= 1'')
      else if (case query_limit q of Number x \<Rightarrow> 100 < x | _ \<Rightarrow> False)
      then Some (ValidationError ''querystring/limit must be <= 100'')
      else if query_offset q = Not_a_number
      then Some (ValidationError ''querystring/offset must be number'')
      else if (case query_offset q of Number x \<Rightarrow> x < 0 | _ \<Rightarrow> False)
      then Some (ValidationError ''querystring/offset must be >= 0'')
      else None)"

definition fetch_orders ::
  "(string option \<Rightarrow> string option \<Rightarrow> real \<Rightarrow> real \<Rightarrow> ('w, 'd) query) \<Rightarrow> orders_query
     \<Rightarrow> 'w \<Rightarrow> (error + 'd result) \<times> 'w" where
  "fetch_orders select_range q w =
     (let lim = or_default (query_limit q) 20; off = or_default (query_offset q) 0;
          by_user = (if truthy (user_id q) then user_id q else None);
          by_status = (if truthy (status q) then status q else None)
      in case select_range by_user by_status off lim w of (res, w') \<Rightarrow>
           (case error res of
              Some m \<Rightarrow> (Inl (Error m), w')
            | None \<Rightarrow>
                (Inr (Result (data res)
                        (Some \<lparr>total = (case count res of None \<Rightarrow> 0 | Some n \<Rightarrow> n),
                               limit = lim, offset = off\<rparr>)), w')))"

definition get_orders ::
  "'d result JSON \<Rightarrow> (string option \<times> string option \<times> real \<times> real \<Rightarrow> string)
     \<Rightarrow> (string option \<Rightarrow> string option \<Rightarrow> real \<Rightarrow> real \<Rightarrow> ('w, 'd) query) \<Rightarrow> orders_query
     \<Rightarrow> 'w state \<Rightarrow> (error + 'd reply) \<times> 'w state" where
  "get_orders J stringify_query select_range q st =
     (case check_query q of
        Some e \<Rightarrow> (Inl e, st)
      | None \<Rightarrow>
          (let cacheKey =
                 ''orders:'' @ stringify_query (user_id q, status q, or_default (query_limit q) 20,
                                                or_default (query_offset q) 0)
           in reply_200 (getCachedOrFetch J cacheKey (fetch_orders select_range q) (Some 60) st)))"

text \<open>
  The health check: the cache is \<^verbatim>\<open>disabled\<close> when \<open>redis\<close> is \<^verbatim>\<open>null\<close>, otherwise it is
  pinged. \<open>probe\<close> is the query on the users table; only a throw makes the database
  status \<^verbatim>\<open>error\<close>.
\<close>

record services =
  database :: string
  cache :: string

definition health :: "('w \<Rightarrow> (error + unit) \<times> 'w) \<Rightarrow> 'w state \<Rightarrow> services \<times> 'w state" where
  "health probe st =
     (case probe (world st) of (r, w) \<Rightarrow>
        (let dbStatus = (case r of Inl e \<Rightarrow> ''error'' | Inr u \<Rightarrow> ''ok''); st1 = st\<lparr>world := w\<rparr>
         in if redis st1 \<noteq> None then
              (case redis_ping st1 of
                 (Inl e, st2) \<Rightarrow> (\<lparr>database = dbStatus, cache = ''error''\<rparr>, st2)
               | (Inr pong, st2) \<Rightarrow> (\<lparr>database = dbStatus, cache = ''ok''\<rparr>, st2))
            else (\<lparr>database = dbStatus, cache = ''disabled''\<rparr>, st1)))"

subsection \<open>Runs of the process\<close>

text \<open>
  What can happen to the process after start: a request to one of the routes, an
  \<^verbatim>\<open>error\<close> event of the client, time passing on the Redis server, and any change of the
  Redis server from outside (other clients, a restart, a fault that appears or goes away).
\<close>

datatype ('w, 'd) event =
    GET_users "('w, 'd) query"
  | GET_user string "('w, 'd) query"
  | POST_users string "string \<Rightarrow> ('w, 'd) query"
  | PATCH_user string "('w, 'd) query"
  | DELETE_user string "('w, 'd) query"
  | GET_orders orders_query "string option \<Rightarrow> string option \<Rightarrow> real \<Rightarrow> real \<Rightarrow> ('w, 'd) query"
  | GET_health "'w \<Rightarrow> (error + unit) \<times> 'w"
  | Error_event string
  | Elapse nat
  | Outside "redis_server \<Rightarrow> redis_server"

definition elapse :: "nat \<Rightarrow> 'w state \<Rightarrow> 'w state" where
  "elapse d st = st\<lparr>server := (server st)\<lparr>clock := clock (server st) + d\<rparr>\<rparr>"

fun step ::
  "'d result JSON \<Rightarrow> (string option \<times> string option \<times> real \<times> real \<Rightarrow> string)
     \<Rightarrow> ('w, 'd) event \<Rightarrow> 'w state \<Rightarrow> 'w state" where
  "step J sq (GET_users q) st = snd (respond (get_users J q st))"
| "step J sq (GET_user uid q) st = snd (respond (get_user J uid q st))"
| "step J sq (POST_users new_id q) st = snd (respond (post_users new_id q st))"
| "step J sq (PATCH_user uid q) st = snd (respond (patch_user uid q st))"
| "step J sq (DELETE_user uid q) st = snd (respond (delete_user uid q st))"
| "step J sq (GET_orders oq q) st = snd (respond (get_orders J sq q oq st))"
| "step J sq (GET_health probe) st = snd (health probe st)"
| "step J sq (Error_event m) st = on_error m st"
| "step J sq (Elapse d) st = elapse d st"
| "step J sq (Outside change) st = st\<lparr>server := change (server st)\<rparr>"

fun run ::
  "'d result JSON \<Rightarrow> (string option \<times> string option \<times> real \<times> real \<Rightarrow> string)
     \<Rightarrow> ('w, 'd) event list \<Rightarrow> 'w state \<Rightarrow> 'w state" where
  "run J sq [] st = st"
| "run J sq (ev # evs) st = run J sq evs (step J sq ev st)"

text \<open>
  A key without a character that \<^verbatim>\<open>KEYS\<close> reads as a pattern; every UUID is one.
\<close>

definition literal :: "string \<Rightarrow> bool" where
  "literal s = list_all (\<lambda>c. c \<noteq> CHR ''*'' \<and> c \<noteq> CHR ''?'' \<and> c \<noteq> CHR ''['' \<and> c \<noteq> CHR 0x5C) s"

text \<open>
  The keys the program stores are \<^verbatim>\<open>users:all\<close>, \<^verbatim>\<open>orders:\<close> followed by a query, and
  \<^verbatim>\<open>user:\<close> followed by an identifier that has passed the schema. So on a server that
  only this program writes to, what follows \<^verbatim>\<open>user:\<close> in a key is a UUID.
\<close>

definition user_keys_are_uuids :: "redis_server \<Rightarrow> bool" where
  "user_keys_are_uuids b =
     list_all (\<lambda>e. take 5 (fst e) = ''user:'' \<longrightarrow> uuid_format (drop 5 (fst e))) (entries b)"

text \<open>The commands sent between two states of a run, oldest first.\<close>

definition sent_by :: "'w state \<Rightarrow> 'w state \<Rightarrow> command list" where
  "sent_by before after = drop (length (issued before)) (issued after)"

subsection \<open>Sample inputs\<close>

text \<open>
  Concrete inputs on which the theorems below are run: a serialisation of strings free
  of characters that need escaping, a Redis server without entries and without faults,
  one that fails every command, and fetchers that count their invocations in the world.
\<close>

definition quote :: "string \<Rightarrow> string" where
  "quote s = CHR 0x22 # s @ [CHR 0x22]"

definition J_text :: "string JSON" where
  "J_text =
     \<lparr>stringify = quote,
      parse = (\<lambda>t. if 2 \<le> length t \<and> hd t = CHR 0x22 \<and> last t = CHR 0x22
                   then Inr (butlast (tl t)) else Inl (SyntaxError ''Unexpected token''))\<rparr>"

definition empty_server :: redis_server where
  "empty_server = \<lparr>entries = [], clock = 0, fault = (\<lambda>c. None)\<rparr>"

definition broken_server :: redis_server where
  "broken_server = \<lparr>entries = [], clock = 0, fault = (\<lambda>c. Some ''Connection is closed.'')\<rparr>"

definition connected :: "redis_server \<Rightarrow> nat state" where
  "connected b =
     \<lparr>redis = Some Client, server = b, issued = [], app_log = [], fetches = 0, world = 0\<rparr>"

definition disabled :: "redis_server \<Rightarrow> nat state" where
  "disabled b =
     \<lparr>redis = None, server = b, issued = [], app_log = [], fetches = 0, world = 0\<rparr>"

text \<open>The state after the key \<^verbatim>\<open>user:42\<close> has been populated with the default time to live.\<close>

definition populated_42 :: "nat state" where
  "populated_42 =
     \<lparr>redis = Some Client,
      server = \<lparr>entries = [(''user:42'', quote ''alice'', 300)], clock = 0, fault = (\<lambda>c. None)\<rparr>,
      issued = [GET ''user:42'', SETEX ''user:42'' 300 (quote ''alice'')],
      app_log = [Cache_set ''user:42''], fetches = 1, world = 1\<rparr>"

text \<open>
  A serialisation that is not stable under the round trip: the text it stores for
  \<^verbatim>\<open>alice\<close> reads back in upper case. The state is the one after the key \<^verbatim>\<open>user:42\<close>
  has been populated through it.
\<close>

definition J_lossy :: "string JSON" where
  "J_lossy = \<lparr>stringify = (\<lambda>s. if s = ''alice'' then ''ALICE'' else s), parse = Inr\<rparr>"

definition populated_lossy :: "nat state" where
  "populated_lossy =
     \<lparr>redis = Some Client,
      server = \<lparr>entries = [(''user:42'', ''ALICE'', 300)], clock = 0, fault = (\<lambda>c. None)\<rparr>,
      issued = [GET ''user:42'', SETEX ''user:42'' 300 ''ALICE''],
      app_log = [Cache_set ''user:42''], fetches = 1, world = 1\<rparr>"

definition fetch_alice :: "nat \<Rightarrow> (error + string) \<times> nat" where
  "fetch_alice w = (Inr ''alice'', Suc w)"

definition fetch_fails :: "nat \<Rightarrow> (error + string) \<times> nat" where
  "fetch_fails w = (Inl (Error ''relation does not exist''), Suc w)"



text \<open>
  For the routes: an identifier that passes the schema and the key of its user, an
  identifier as \<^verbatim>\<open>nanoid()\<close> gives them, a serialisation of results that keeps the rows, a
  text for the query of the orders listing, and Supabase queries that succeed and count
  in the world.
\<close>

definition alice_id :: string where
  "alice_id = ''123e4567-e89b-12d3-a456-426614174000''"

definition alice_key :: string where
  "alice_key = ''user:123e4567-e89b-12d3-a456-426614174000''"

definition fresh_id :: string where
  "fresh_id = ''V1StGXR8_Z5jdHi6B-myT''"

definition J_rows :: "string result JSON" where
  "J_rows =
     \<lparr>stringify = (\<lambda>r. case r of Result d m \<Rightarrow> CHR ''{'' # d @ ''}''),
      parse = (\<lambda>t. if 2 \<le> length t \<and> hd t = CHR ''{'' \<and> last t = CHR ''}''
                   then Inr (Result (butlast (tl t)) None)
                   else Inl (SyntaxError ''Unexpected token''))\<rparr>"

definition query_text :: "string option \<times> string option \<times> real \<times> real \<Rightarrow> string" where
  "query_text q =
     (case q of (u, s, l, off) \<Rightarrow>
        (case u of None \<Rightarrow> [] | Some x \<Rightarrow> x) @ '','' @ (case s of None \<Rightarrow> [] | Some x \<Rightarrow> x))"

definition select_ok :: "(nat, string) query" where
  "select_ok w = (\<lparr>data = ''alice'', error = None, count = Some 1\<rparr>, Suc w)"

definition insert_ok :: "string \<Rightarrow> (nat, string) query" where
  "insert_ok new_id w = (\<lparr>data = new_id, error = None, count = None\<rparr>, Suc w)"


text \<open>
  Two servers whose connection is alive and that refuse one kind of command: a replica
  that cannot be written to, and a server on which \<^verbatim>\<open>KEYS\<close> has been disabled.
\<close>

definition readonly_server :: redis_server where
  "readonly_server =
     \<lparr>entries = [], clock = 0,
      fault = (\<lambda>c. case c of SETEX k t v \<Rightarrow> Some ''READONLY replica'' | _ \<Rightarrow> None)\<rparr>"

definition keys_disabled_server :: redis_server where
  "keys_disabled_server =
     \<lparr>entries = [], clock = 0,
      fault = (\<lambda>c. case c of KEYS p \<Rightarrow> Some ''ERR unknown command KEYS'' | _ \<Rightarrow> None)\<rparr>"

definition pending_orders :: orders_query where
  "pending_orders =
     \<lparr>user_id = None, status = Some ''pending'', query_limit = Omitted, query_offset = Omitted\<rparr>"

text \<open>
  The state the process reaches from a start with an empty server once the users listing
  and the user of \<open>alice_id\<close> have been read: the server holds an entry for each.
\<close>

definition warm_cache :: "nat state" where
  "warm_cache =
     run J_rows query_text [GET_users select_ok, GET_user alice_id select_ok]
       (startup empty_server 0)"

text \<open>
  A process whose world is the name the persistent store holds for the user of
  \<open>alice_id\<close>: the fetcher reads the name, the update renames the user to \<^verbatim>\<open>bob\<close>. The
  three states are those of a read of the user that is in flight while the update is
  served: after the read has fetched, after the update has been answered, and after the
  read has stored what it fetched.
\<close>

definition serving :: "string \<Rightarrow> string state" where
  "serving name =
     \<lparr>redis = Some Client, server = empty_server, issued = [], app_log = [], fetches = 0,
      world = name\<rparr>"

definition read_name :: "string \<Rightarrow> (error + string) \<times> string" where
  "read_name w = (Inr w, w)"

definition rename_bob :: "(string, string) query" where
  "rename_bob w = (\<lparr>data = ''bob'', error = None, count = None\<rparr>, ''bob'')"

definition read_in_flight :: "string state" where
  "read_in_flight = snd (begin_read J_text alice_key read_name (serving ''alice''))"

definition update_answered :: "string state" where
  "update_answered = snd (patch_user alice_id rename_bob read_in_flight)"

definition read_completed :: "string state" where
  "read_completed = snd (end_read J_text alice_key None (Inr ''alice'') update_answered)"

section \<open>Properties\<close>

subsection \<open>Facts about the server and the two utility functions\<close>

lemma getCachedOrFetch_null:
  "redis st = None \<Longrightarrow> getCachedOrFetch J k f ttl st = invoke f st"
  by (simp add: getCachedOrFetch_def)

lemma getCachedOrFetch_get_fails:
  "redis st \<noteq> None \<Longrightarrow> fault (server st) (GET k) = Some m
     \<Longrightarrow> getCachedOrFetch J k f ttl st = (Inl (RedisError m), send (GET k) st)"
  by (auto simp: getCachedOrFetch_def redis_get_def)

lemma getCachedOrFetch_hit:
  "redis st \<noteq> None \<Longrightarrow> fault (server st) (GET k) = None \<Longrightarrow> truthy (lookup (server st) k)
     \<Longrightarrow> getCachedOrFetch J k f ttl st
         = (parse J (the (lookup (server st) k)), info (Cache_hit k) (send (GET k) st))"
  by (auto simp: getCachedOrFetch_def redis_get_def)

lemma getCachedOrFetch_miss:
  "redis st \<noteq> None \<Longrightarrow> fault (server st) (GET k) = None \<Longrightarrow> \<not> truthy (lookup (server st) k)
     \<Longrightarrow> getCachedOrFetch J k f ttl st
         = (case invoke f (send (GET k) st) of
              (Inl e, st2) \<Rightarrow> (Inl e, st2)
            | (Inr v, st2) \<Rightarrow>
                (case redis_setex k (ttl_or_default ttl) (stringify J v) st2 of
                   (Inl e, st3) \<Rightarrow> (Inl e, st3)
                 | (Inr u, st3) \<Rightarrow> (Inr v, info (Cache_set k) st3)))"
  by (auto simp: getCachedOrFetch_def redis_get_def)


lemma lookup_store:
  "0 < ttl \<Longrightarrow> d < nat ttl \<Longrightarrow> lookup ((store k ttl v b)\<lparr>clock := clock b + d\<rparr>) k = Some v"
  by (simp add: lookup_def store_def live_def)

lemma populated_entry:
  assumes "redis st \<noteq> None"
    and "getCachedOrFetch J k f ttl st = (Inr v, st1)"
    and "fetches st1 = Suc (fetches st)"
  shows "redis st1 \<noteq> None \<and> 0 < ttl_or_default ttl
         \<and> (\<exists>b. server st1 = store k (ttl_or_default ttl) (stringify J v) b
                \<and> clock b = clock (server st1))"
  using assms
  by (auto simp: getCachedOrFetch_def redis_get_def redis_setex_def invoke_def send_def
                 info_def store_def
           split: prod.splits sum.splits option.splits if_splits)

lemma populated_lookup:
  assumes "redis st \<noteq> None"
    and "getCachedOrFetch J k f ttl st = (Inr v, st1)"
    and "fetches st1 = Suc (fetches st)"
    and "d < nat (ttl_or_default ttl)"
  shows "lookup (server (elapse d st1)) k = Some (stringify J v)"
proof -
  from populated_entry [OF assms(1-3)] obtain b where
    b: "0 < ttl_or_default ttl" "server st1 = store k (ttl_or_default ttl) (stringify J v) b"
       "clock b = clock (server st1)"
    by blast
  have "server (elapse d st1)
          = (store k (ttl_or_default ttl) (stringify J v) b)\<lparr>clock := clock b + d\<rparr>"
    by (simp add: elapse_def b)
  then show ?thesis
    using lookup_store [OF b(1) assms(4)] by simp
qed

lemma invalidateCache_null: "redis st = None \<Longrightarrow> invalidateCache p st = (Inr (), st)"
  by (simp add: invalidateCache_def)



lemma snd_reply_200: "snd (reply_200 r) = snd r"
  by (simp add: reply_200_def split: prod.splits sum.splits)

lemma setex_sent:
  assumes "SETEX k t v \<in> set (sent_by st (snd (getCachedOrFetch J key f ttl st)))"
  shows "k = key \<and> t = ttl_or_default ttl
         \<and> (fault (server st) (SETEX k t v) = None \<and> 0 < t
              \<longrightarrow> server (snd (getCachedOrFetch J key f ttl st)) = store k t v (server st))"
  using assms
  by (auto simp: getCachedOrFetch_def redis_get_def redis_setex_def invoke_def send_def info_def
        sent_by_def split: prod.splits sum.splits option.splits if_splits)

lemma skip_stars_literal: "literal p \<Longrightarrow> skip_stars p = p"
  by (cases p) (auto simp: literal_def skip_stars_def)

lemma literal_match: "literal p \<Longrightarrow> stringmatchlen p s \<longleftrightarrow> s = p"
proof (induction p arbitrary: s)
  case Nil
  then show ?case by simp
next
  case (Cons a p)
  then have p: "literal p"
    and a: "a \<noteq> CHR ''*''" "a \<noteq> CHR ''?''" "a \<noteq> CHR ''[''" "a \<noteq> CHR 0x5C"
    by (simp_all add: literal_def)
  show ?case
  proof (cases s)
    case Nil
    then show ?thesis by simp
  next
    case (Cons c s')
    then show ?thesis
      using a Cons.IH [OF p, of s'] skip_stars_literal [OF p] by auto
  qed
qed

lemma literal_star_match:
  "literal p \<Longrightarrow> p \<noteq> [] \<Longrightarrow> stringmatchlen (p @ ''*'') s \<longleftrightarrow> take (length p) s = p"
proof (induction p arbitrary: s)
  case Nil
  then show ?case by simp
next
  case (Cons a p)
  then have p: "literal p"
    and a: "a \<noteq> CHR ''*''" "a \<noteq> CHR ''?''" "a \<noteq> CHR ''[''" "a \<noteq> CHR 0x5C"
    by (simp_all add: literal_def)
  show ?case
  proof (cases s)
    case Nil
    then show ?thesis by simp
  next
    case s: (Cons c s')
    show ?thesis
    proof (cases "p = []")
      case True
      then show ?thesis
        using a s by (cases s') (auto simp: skip_stars_def)
    next
      case False
      have "skip_stars (p @ ''*'') \<noteq> []"
        using False p by (cases p) (auto simp: skip_stars_def literal_def)
      then show ?thesis
        using a s False Cons.IH [OF p False, of s'] by auto
    qed
  qed
qed

lemma users_star_match: "stringmatchlen ''users:*'' k \<longleftrightarrow> take 6 k = ''users:''"
  using literal_star_match [of "''users:''" k] by (simp add: literal_def eval_nat_numeral)

lemma user_key_match: "literal uid \<Longrightarrow> stringmatchlen (''user:'' @ uid) k \<longleftrightarrow> k = ''user:'' @ uid"
  using literal_match [of "''user:'' @ uid" k] by (simp add: literal_def)

lemma map_of_filter_key:
  "map_of (filter (\<lambda>e. P (fst e)) xs) k = (if P k then map_of xs k else None)"
  by (induction xs) auto

lemma live_delete: "live (delete ks b) = filter (\<lambda>e. fst e \<notin> set ks) (live b)"
  by (auto simp: live_def delete_def intro: filter_cong)

lemma lookup_delete: "lookup (delete ks b) k = (if k \<in> set ks then None else lookup b k)"
  by (simp add: lookup_def live_delete map_of_filter_key [of "\<lambda>k. k \<notin> set ks"])

lemma lookup_live: "k \<in> fst ` set (live b) \<longleftrightarrow> lookup b k \<noteq> None"
  by (simp add: lookup_def map_of_eq_None_iff)

lemma matching_iff:
  "k \<in> set (matching b p) \<longleftrightarrow> lookup b k \<noteq> None \<and> (p = ''*'' \<or> stringmatchlen p k)"
  by (simp add: matching_def lookup_live)

lemma invalidateCache_purges:
  assumes "redis st \<noteq> None" and "\<forall>c. fault (server st) c = None"
  shows "fst (invalidateCache p st) = Inr ()
         \<and> redis (snd (invalidateCache p st)) = redis st
         \<and> fetches (snd (invalidateCache p st)) = fetches st
         \<and> world (snd (invalidateCache p st)) = world st
         \<and> fault (server (snd (invalidateCache p st))) = fault (server st)
         \<and> lookup (server (snd (invalidateCache p st))) k
             = (if p = ''*'' \<or> stringmatchlen p k then None else lookup (server st) k)"
proof (cases "matching (server st) p = []")
  case True
  then have "k \<notin> set (matching (server st) p)"
    by simp
  then have "(p = ''*'' \<or> stringmatchlen p k) \<longrightarrow> lookup (server st) k = None"
    by (auto simp: matching_iff)
  then show ?thesis
    using assms True by (auto simp: invalidateCache_def redis_keys_def send_def)
next
  case False
  have "lookup (delete (matching (server st) p) (server st)) k
          = (if p = ''*'' \<or> stringmatchlen p k then None else lookup (server st) k)"
    by (auto simp: lookup_delete matching_iff)
  then show ?thesis
    using assms False
    by (auto simp: invalidateCache_def redis_keys_def redis_del_def send_def info_def delete_def)
qed

lemma invalidateCache_any:
  assumes "\<forall>c. fault (server st) c = None"
  shows "invalidateCache p st = (Inr (), snd (invalidateCache p st))
         \<and> redis (snd (invalidateCache p st)) = redis st
         \<and> fetches (snd (invalidateCache p st)) = fetches st
         \<and> world (snd (invalidateCache p st)) = world st
         \<and> fault (server (snd (invalidateCache p st))) = fault (server st)
         \<and> (redis st \<noteq> None \<longrightarrow>
              lookup (server (snd (invalidateCache p st))) k
                = (if p = ''*'' \<or> stringmatchlen p k then None else lookup (server st) k))"
proof (cases "redis st = None")
  case True
  then show ?thesis by (simp add: invalidateCache_null)
next
  case False
  from invalidateCache_purges [OF False assms, of p k] show ?thesis
    by (simp add: prod_eq_iff)
qed

lemma literal_append: "literal (a @ b) \<longleftrightarrow> literal a \<and> literal b"
  by (simp add: literal_def)

lemma hex_digit_plain:
  "hex_digit c \<Longrightarrow> c \<noteq> CHR ''*'' \<and> c \<noteq> CHR ''?'' \<and> c \<noteq> CHR ''['' \<and> c \<noteq> CHR 0x5C"
  by (auto simp: hex_digit_def)

lemma uuid_body_literal:
  assumes "uuid_body s"
  shows "literal s"
proof -
  have "c \<noteq> CHR ''*'' \<and> c \<noteq> CHR ''?'' \<and> c \<noteq> CHR ''['' \<and> c \<noteq> CHR 0x5C" if "c \<in> set s" for c
  proof -
    from that obtain i where i: "i < length s" "s ! i = c"
      by (auto simp: in_set_conv_nth)
    from assms i have "c = CHR ''-'' \<or> hex_digit c"
      by (auto simp: uuid_body_def list_all2_conv_all_nth split: if_splits)
    then show ?thesis
      using hex_digit_plain by auto
  qed
  then show ?thesis
    by (simp add: literal_def list_all_iff)
qed

lemma same_letter_literal:
  assumes "list_all2 same_letter ''urn:uuid:'' t"
  shows "literal t"
proof -
  have "c \<noteq> CHR ''*'' \<and> c \<noteq> CHR ''?'' \<and> c \<noteq> CHR ''['' \<and> c \<noteq> CHR 0x5C" if "c \<in> set t" for c
  proof -
    from that obtain i where i: "i < length t" "t ! i = c"
      by (auto simp: in_set_conv_nth)
    from assms i have "same_letter (''urn:uuid:'' ! i) c" and "i < length ''urn:uuid:''"
      by (auto simp: list_all2_conv_all_nth)
    then obtain p where "p \<in> set ''urn:uuid:''" and "same_letter p c"
      using nth_mem by blast
    then show ?thesis
      by (auto simp: same_letter_def)
  qed
  then show ?thesis
    by (simp add: literal_def list_all_iff)
qed

lemma uuid_literal: "uuid_format s \<Longrightarrow> literal s"
proof -
  assume "uuid_format s"
  then consider "uuid_body s"
    | "list_all2 same_letter ''urn:uuid:'' (take 9 s)" "uuid_body (drop 9 s)"
    by (auto simp: uuid_format_def)
  then show "literal s"
  proof cases
    case 1
    then show ?thesis by (rule uuid_body_literal)
  next
    case 2
    then have "literal (take 9 s @ drop 9 s)"
      unfolding literal_append by (simp add: same_letter_literal uuid_body_literal)
    then show ?thesis by simp
  qed
qed

lemma nanoid_not_uuid: "nanoid_format s \<Longrightarrow> \<not> uuid_format s"
  by (auto simp: nanoid_format_def uuid_format_def uuid_body_def dest!: list_all2_lengthD)

lemma alice_id_uuid: "uuid_format alice_id"
  by (simp add: uuid_format_def uuid_body_def hex_digit_def alice_id_def)

lemma alice_key_eq: "alice_key = ''user:'' @ alice_id"
  by (simp add: alice_key_def alice_id_def)

lemma fresh_id_nanoid: "nanoid_format fresh_id"
  by (simp add: nanoid_format_def fresh_id_def)

lemma read_in_two_parts:
  "getCachedOrFetch J k f ttl st
     = (case begin_read J k f st of
          (Finished r, st') \<Rightarrow> (r, st')
        | (Fetching r, st') \<Rightarrow> end_read J k ttl r st')"
  by (auto simp: getCachedOrFetch_def begin_read_def end_read_def invoke_def redis_get_def
        send_def split: prod.splits sum.splits option.splits)

lemma user_keys_store:
  assumes "user_keys_are_uuids b" and "take 5 k = ''user:'' \<longrightarrow> uuid_format (drop 5 k)"
  shows "user_keys_are_uuids (store k ttl v b)"
  using assms by (auto simp: user_keys_are_uuids_def store_def list_all_iff)

lemma user_keys_delete: "user_keys_are_uuids b \<Longrightarrow> user_keys_are_uuids (delete ks b)"
  by (auto simp: user_keys_are_uuids_def delete_def list_all_iff)

lemma user_keys_clock: "user_keys_are_uuids (b\<lparr>clock := c\<rparr>) = user_keys_are_uuids b"
  by (simp add: user_keys_are_uuids_def)

lemma user_keys_getCachedOrFetch:
  assumes "user_keys_are_uuids (server st)"
    and "take 5 k = ''user:'' \<longrightarrow> uuid_format (drop 5 k)"
  shows "user_keys_are_uuids (server (snd (getCachedOrFetch J k f ttl st)))"
  using assms user_keys_store [OF assms, of "ttl_or_default ttl"]
  by (auto simp: getCachedOrFetch_def redis_get_def redis_setex_def invoke_def send_def info_def
        split: prod.splits sum.splits option.splits)

lemma user_keys_invalidateCache:
  assumes "user_keys_are_uuids (server st)"
  shows "user_keys_are_uuids (server (snd (invalidateCache p st)))"
  using assms user_keys_delete [OF assms]
  by (auto simp: invalidateCache_def redis_keys_def redis_del_def send_def info_def
        split: option.splits)

lemma server_respond: "server (snd (respond r)) = server (snd r)"
  by (simp add: respond_def errorHandler_def info_def split: prod.splits sum.splits)

lemma user_keys_step:
  assumes "user_keys_are_uuids (server st)"
    and "\<And>change. ev = Outside change \<Longrightarrow> user_keys_are_uuids (change (server st))"
  shows "user_keys_are_uuids (server (step J sq ev st))"
proof (cases ev)
  case (GET_users q)
  then show ?thesis
    using user_keys_getCachedOrFetch [OF assms(1), of "''users:all''" J "fetch_data q" None]
    by (simp add: server_respond get_users_def snd_reply_200)
next
  case (GET_user uid q)
  then show ?thesis
    using assms(1)
      user_keys_getCachedOrFetch [OF assms(1), of "''user:'' @ uid" J "fetch_data q" None]
    by (simp add: server_respond get_user_def snd_reply_200)
next
  case (POST_users new_id q)
  have "user_keys_are_uuids (server (snd (invalidateCache ''users:*'' (st\<lparr>world := w\<rparr>))))"
    for w
    using assms(1) by (intro user_keys_invalidateCache) simp
  then show ?thesis
    using POST_users assms(1)
    by (auto simp: server_respond post_users_def split: prod.splits option.splits sum.splits)
      (metis snd_conv)+
next
  case (PATCH_user uid q)
  have "user_keys_are_uuids
          (server (snd (invalidateCache ''users:*''
             (snd (invalidateCache (''user:'' @ uid) (st\<lparr>world := w\<rparr>))))))" for w
    using assms(1) by (intro user_keys_invalidateCache) simp
  moreover have "user_keys_are_uuids
          (server (snd (invalidateCache (''user:'' @ uid) (st\<lparr>world := w\<rparr>))))" for w
    using assms(1) by (intro user_keys_invalidateCache) simp
  ultimately show ?thesis
    using PATCH_user assms(1)
    by (auto simp: server_respond patch_user_def split: prod.splits option.splits sum.splits)
      (metis snd_conv)+
next
  case (DELETE_user uid q)
  have "user_keys_are_uuids
          (server (snd (invalidateCache ''users:*''
             (snd (invalidateCache (''user:'' @ uid) (st\<lparr>world := w\<rparr>))))))" for w
    using assms(1) by (intro user_keys_invalidateCache) simp
  moreover have "user_keys_are_uuids
          (server (snd (invalidateCache (''user:'' @ uid) (st\<lparr>world := w\<rparr>))))" for w
    using assms(1) by (intro user_keys_invalidateCache) simp
  ultimately show ?thesis
    using DELETE_user assms(1)
    by (auto simp: server_respond delete_user_def split: prod.splits option.splits sum.splits)
      (metis snd_conv)+
next
  case (GET_orders oq q)
  then show ?thesis
    using assms(1)
      user_keys_getCachedOrFetch [OF assms(1),
        of "''orders:'' @ sq (user_id oq, status oq, or_default (query_limit oq) 20,
                              or_default (query_offset oq) 0)"
           J "fetch_orders q oq" "Some 60"]
    by (simp add: server_respond get_orders_def snd_reply_200 Let_def split: option.splits)
next
  case (GET_health probe)
  then show ?thesis
    using assms(1)
    by (auto simp: health_def redis_ping_def send_def Let_def split: prod.splits option.splits)
next
  case (Error_event m)
  then show ?thesis
    using assms(1) by (simp add: on_error_def info_def)
next
  case (Elapse d)
  then show ?thesis
    using assms(1) by (simp add: elapse_def user_keys_clock)
next
  case (Outside change)
  then show ?thesis
    using assms(2) by simp
qed

lemma no_entry_for_other_ids:
  assumes "user_keys_are_uuids b" and "\<not> uuid_format x"
  shows "lookup b (''user:'' @ x) = None"
proof -
  have "''user:'' @ x \<notin> fst ` set (entries b)"
    using assms by (force simp: user_keys_are_uuids_def list_all_iff)
  then have "''user:'' @ x \<notin> fst ` set (live b)"
    by (auto simp: live_def)
  then show ?thesis
    by (simp add: lookup_def map_of_eq_None_iff)
qed

lemma user_keys_run:
  assumes "user_keys_are_uuids (server st)"
    and "\<And>change b. Outside change \<in> set evs \<Longrightarrow> user_keys_are_uuids b
            \<Longrightarrow> user_keys_are_uuids (change b)"
  shows "user_keys_are_uuids (server (run J sq evs st))"
  using assms
proof (induction evs arbitrary: st)
  case Nil
  then show ?case by simp
next
  case (Cons ev evs)
  have "user_keys_are_uuids (server (step J sq ev st))"
    using Cons.prems by (intro user_keys_step) auto
  then show ?case
    using Cons.IH [of "step J sq ev st"] Cons.prems(2) by simp
qed

lemma world_invalidateCache: "world (snd (invalidateCache p st)) = world st"
  by (auto simp: invalidateCache_def redis_keys_def redis_del_def send_def info_def
           split: option.splits)

lemma refetch_outcome:
  assumes "\<forall>c. fault (server s) c = None"
    and "redis s \<noteq> None \<longrightarrow> lookup (server s) k = None"
  shows "world (snd (getCachedOrFetch J k f ttl s)) = snd (f (world s))
         \<and> fetches (snd (getCachedOrFetch J k f ttl s)) = Suc (fetches s)
         \<and> (0 < ttl_or_default ttl \<longrightarrow> fst (getCachedOrFetch J k f ttl s) = fst (f (world s)))"
proof (cases "redis s = None")
  case True
  then show ?thesis
    by (simp add: getCachedOrFetch_null invoke_def split: prod.splits)
next
  case False
  with assms have "fault (server s) (GET k) = None" "\<not> truthy (lookup (server s) k)"
    by simp_all
  with False assms(1) show ?thesis
    by (simp add: getCachedOrFetch_miss invoke_def send_def redis_setex_def info_def
             split: prod.splits sum.splits)
qed

lemma warm_cache_eq:
  "warm_cache =
     \<lparr>redis = Some Client,
      server = \<lparr>entries = [(alice_key, ''{alice}'', 300), (''users:all'', ''{alice}'', 300)],
                clock = 0, fault = (\<lambda>c. None)\<rparr>,
      issued = [PING, GET ''users:all'', SETEX ''users:all'' 300 ''{alice}'', GET alice_key,
                SETEX alice_key 300 ''{alice}''],
      app_log = [Cache_set ''users:all'', Cache_set alice_key], fetches = 2, world = 2\<rparr>"
proof -
  have "alice_key \<noteq> ''users:all''"
    by (simp add: alice_key_def)
  then show ?thesis
    by (simp add: warm_cache_def startup_def redis_ping_def get_users_def get_user_def
          alice_id_uuid alice_key_eq [symmetric] reply_200_def respond_def getCachedOrFetch_def
          redis_get_def redis_setex_def invoke_def send_def info_def store_def lookup_def
          live_def ttl_or_default_def fetch_data_def empty_server_def select_ok_def J_rows_def
          del: append.simps)
qed

subsection \<open>Claims\<close>

text \<open>
  C6. When \<open>redis\<close> is \<^verbatim>\<open>null\<close>, \<open>getCachedOrFetch\<close>, for every key, time to live and
  fetcher, invokes the fetcher exactly once and returns its result; it sends no command
  to the Redis server (no lookup, no store) and leaves the server as it is.
\<close>

theorem degraded_mode_fetches_once:
  assumes "redis st = None"
  shows "getCachedOrFetch J cacheKey fetcher ttl st
           = (fst (fetcher (world st)),
              st\<lparr>fetches := Suc (fetches st), world := snd (fetcher (world st))\<rparr>)
         \<and> issued (snd (getCachedOrFetch J cacheKey fetcher ttl st)) = issued st
         \<and> server (snd (getCachedOrFetch J cacheKey fetcher ttl st)) = server st"
  using assms by (simp add: getCachedOrFetch_null invoke_def split: prod.splits)

theorem degraded_mode_fetches_once_witness:
  "redis (disabled empty_server) = None
   \<and> fst (getCachedOrFetch J_text ''user:42'' fetch_alice (Some 300) (disabled empty_server))
       = Inr ''alice''
   \<and> fetches (snd (getCachedOrFetch J_text ''user:42'' fetch_alice (Some 300)
                     (disabled empty_server))) = 1
   \<and> issued (snd (getCachedOrFetch J_text ''user:42'' fetch_alice (Some 300)
                    (disabled empty_server))) = []"
  using degraded_mode_fetches_once
          [of "disabled empty_server" J_text "''user:42''" fetch_alice "Some 300"]
  by (simp add: disabled_def fetch_alice_def)

text \<open>
  C2. On a cache miss (the client is there, the lookup succeeds and finds nothing
  truthy), a fetcher that fails with \<open>e\<close> makes \<open>getCachedOrFetch\<close> fail with \<open>e\<close> itself;
  the only command sent is the lookup, and the Redis server is left unchanged: nothing
  is stored under the key.
\<close>

theorem fetch_failure_is_surfaced_and_not_cached:
  assumes "redis st \<noteq> None"
    and "fault (server st) (GET cacheKey) = None"
    and "\<not> truthy (lookup (server st) cacheKey)"
    and "fetcher (world st) = (Inl e, w)"
  shows "fst (getCachedOrFetch J cacheKey fetcher ttl st) = Inl e
         \<and> server (snd (getCachedOrFetch J cacheKey fetcher ttl st)) = server st
         \<and> issued (snd (getCachedOrFetch J cacheKey fetcher ttl st)) = issued st @ [GET cacheKey]
         \<and> lookup (server (snd (getCachedOrFetch J cacheKey fetcher ttl st))) cacheKey
             = lookup (server st) cacheKey"
  using assms by (simp add: getCachedOrFetch_miss invoke_def send_def)

theorem fetch_failure_is_surfaced_and_not_cached_witness:
  "redis (connected empty_server) \<noteq> None
   \<and> fault (server (connected empty_server)) (GET ''user:42'') = None
   \<and> \<not> truthy (lookup (server (connected empty_server)) ''user:42'')
   \<and> fetch_fails (world (connected empty_server)) = (Inl (Error ''relation does not exist''), 1)
   \<and> fst (getCachedOrFetch J_text ''user:42'' fetch_fails None (connected empty_server))
       = Inl (Error ''relation does not exist'')
   \<and> server (snd (getCachedOrFetch J_text ''user:42'' fetch_fails None (connected empty_server)))
       = empty_server"
  using fetch_failure_is_surfaced_and_not_cached
          [of "connected empty_server" "''user:42''" fetch_fails
              "Error ''relation does not exist''" 1 J_text None]
  by (simp add: connected_def empty_server_def fetch_fails_def lookup_def live_def)

text \<open>
  C9. Let a call have populated the key with the fetcher's value \<open>v\<close>, and let a later
  call with the same key be a cache hit (client present, lookup working, the entry the
  first call stored still answered and truthy). What the later call returns is
  \<^verbatim>\<open>JSON.parse\<close> of \<^verbatim>\<open>JSON.stringify\<close> of \<open>v\<close>; it is \<open>v\<close> itself exactly when \<open>v\<close> is stable
  under that round trip.
\<close>

theorem hit_returns_json_round_trip:
  assumes "redis st \<noteq> None"
    and "getCachedOrFetch J cacheKey fetcher ttl st = (Inr v, st1)"
    and "fetches st1 = Suc (fetches st)"
    and "redis st2 \<noteq> None"
    and "fault (server st2) (GET cacheKey) = None"
    and "lookup (server st2) cacheKey = lookup (server st1) cacheKey"
    and "truthy (lookup (server st2) cacheKey)"
  shows "fst (getCachedOrFetch J cacheKey fetcher' ttl' st2) = parse J (stringify J v)
         \<and> (fst (getCachedOrFetch J cacheKey fetcher' ttl' st2) = Inr v
              \<longleftrightarrow> parse J (stringify J v) = Inr v)"
proof -
  from assms(1-3) have "0 < ttl_or_default ttl"
    by (simp add: populated_entry)
  then have "lookup (server (elapse 0 st1)) cacheKey = Some (stringify J v)"
    using populated_lookup [OF assms(1-3), of 0] by simp
  then have "lookup (server st2) cacheKey = Some (stringify J v)"
    using assms(6) by (simp add: elapse_def)
  then show ?thesis
    using assms(4,5,7) by (simp add: getCachedOrFetch_hit)
qed

theorem hit_returns_json_round_trip_witness:
  "redis (connected empty_server) \<noteq> None
   \<and> getCachedOrFetch J_lossy ''user:42'' fetch_alice None (connected empty_server)
       = (Inr ''alice'', populated_lossy)
   \<and> fetches populated_lossy = Suc (fetches (connected empty_server))
   \<and> redis populated_lossy \<noteq> None
   \<and> fault (server populated_lossy) (GET ''user:42'') = None
   \<and> truthy (lookup (server populated_lossy) ''user:42'')
   \<and> fst (getCachedOrFetch J_lossy ''user:42'' fetch_alice None populated_lossy) = Inr ''ALICE''
   \<and> parse J_lossy (stringify J_lossy ''alice'') \<noteq> Inr ''alice''"
proof -
  have a: "redis (connected empty_server) \<noteq> None"
    by (simp add: connected_def)
  have b: "getCachedOrFetch J_lossy ''user:42'' fetch_alice None (connected empty_server)
             = (Inr ''alice'', populated_lossy)"
    by (simp add: getCachedOrFetch_def redis_get_def redis_setex_def invoke_def send_def info_def
                  store_def lookup_def live_def ttl_or_default_def connected_def empty_server_def
                  fetch_alice_def J_lossy_def populated_lossy_def)
  have c: "fetches populated_lossy = Suc (fetches (connected empty_server))"
    by (simp add: populated_lossy_def connected_def)
  have d: "redis populated_lossy \<noteq> None"
    by (simp add: populated_lossy_def)
  have e: "fault (server populated_lossy) (GET ''user:42'') = None"
    by (simp add: populated_lossy_def)
  have f: "truthy (lookup (server populated_lossy) ''user:42'')"
    by (simp add: populated_lossy_def lookup_def live_def)
  have g: "parse J_lossy (stringify J_lossy ''alice'') = Inr ''ALICE''"
    by (simp add: J_lossy_def)
  from hit_returns_json_round_trip [OF a b c d e refl f, of fetch_alice None] g
  show ?thesis
    using a b c d e f by simp
qed

text \<open>
  C10. \<open>invalidateCache\<close> never sends \<^verbatim>\<open>DEL\<close> without keys, and when no live key matches
  the pattern it sends no \<^verbatim>\<open>DEL\<close> at all: the only command is then the enumeration, and
  the server is left as it is.
\<close>

theorem no_delete_without_matching_key:
  "DEL [] \<notin> set (sent_by st (snd (invalidateCache pattern st)))
   \<and> (matching (server st) pattern = []
        \<longrightarrow> (\<forall>ks. DEL ks \<notin> set (sent_by st (snd (invalidateCache pattern st))))
            \<and> sent_by st (snd (invalidateCache pattern st))
                = (if redis st = None then [] else [KEYS pattern])
            \<and> server (snd (invalidateCache pattern st)) = server st)"
  by (auto simp: invalidateCache_def redis_keys_def redis_del_def send_def info_def sent_by_def
           split: option.splits)

theorem no_delete_without_matching_key_witness:
  "matching (server populated_42) ''users:*'' = []
   \<and> sent_by populated_42 (snd (invalidateCache ''users:*'' populated_42)) = [KEYS ''users:*'']
   \<and> DEL [] \<notin> set (sent_by populated_42 (snd (invalidateCache ''user:4?'' populated_42)))
   \<and> sent_by populated_42 (snd (invalidateCache ''user:4?'' populated_42))
       = [KEYS ''user:4?'', DEL [''user:42'']]"
proof -
  have a: "matching (server populated_42) ''users:*'' = []"
    by (simp add: matching_def populated_42_def live_def)
  have b: "sent_by populated_42 (snd (invalidateCache ''user:4?'' populated_42))
             = [KEYS ''user:4?'', DEL [''user:42'']]"
    by (simp add: invalidateCache_def redis_keys_def redis_del_def send_def info_def sent_by_def
                  matching_def populated_42_def live_def skip_stars_def)
  from no_delete_without_matching_key [of populated_42 "''users:*''"]
       no_delete_without_matching_key [of populated_42 "''user:4?''"]
  show ?thesis
    using a b by (simp add: populated_42_def)
qed

text \<open>
  C8, as the code has it. The time to live of an entry is fixed by the route that stores
  it: 60 seconds for the orders listing, and the default of 300 seconds for the users
  listing as well as for the lookup of one user. Every \<^verbatim>\<open>SETEX\<close> a route sends carries
  that time, and when the server accepts it the entry expires that many seconds after
  the server's present time.
\<close>

theorem ttl_is_fixed_by_route:
  "(SETEX k t v \<in> set (sent_by st (snd (get_users J q st)))
      \<longrightarrow> k = ''users:all'' \<and> t = 300
          \<and> (fault (server st) (SETEX k t v) = None
               \<longrightarrow> server (snd (get_users J q st)) = store k 300 v (server st)))
   \<and> (SETEX k t v \<in> set (sent_by st (snd (get_user J uid q st)))
      \<longrightarrow> k = ''user:'' @ uid \<and> t = 300
          \<and> (fault (server st) (SETEX k t v) = None
               \<longrightarrow> server (snd (get_user J uid q st)) = store k 300 v (server st)))
   \<and> (SETEX k t v \<in> set (sent_by st (snd (get_orders J sq select_range oq st)))
      \<longrightarrow> t = 60
          \<and> (fault (server st) (SETEX k t v) = None
               \<longrightarrow> server (snd (get_orders J sq select_range oq st)) = store k 60 v (server st)))"
proof (intro conjI impI)
  assume "SETEX k t v \<in> set (sent_by st (snd (get_users J q st)))"
  then have s: "SETEX k t v
      \<in> set (sent_by st (snd (getCachedOrFetch J ''users:all'' (fetch_data q) None st)))"
    by (simp add: get_users_def snd_reply_200)
  from setex_sent [OF s] show "k = ''users:all''" and "t = 300"
    by (simp_all add: ttl_or_default_def)
  then show "server (snd (get_users J q st)) = store k 300 v (server st)"
    if "fault (server st) (SETEX k t v) = None"
    using setex_sent [OF s] that by (simp add: get_users_def snd_reply_200)
next
  assume "SETEX k t v \<in> set (sent_by st (snd (get_user J uid q st)))"
  then have u: "uuid_format uid"
    and s: "SETEX k t v
      \<in> set (sent_by st (snd (getCachedOrFetch J (''user:'' @ uid) (fetch_data q) None st)))"
    by (auto simp: get_user_def snd_reply_200 sent_by_def split: if_splits)
  from setex_sent [OF s] show "k = ''user:'' @ uid" and "t = 300"
    by (simp_all add: ttl_or_default_def)
  then show "server (snd (get_user J uid q st)) = store k 300 v (server st)"
    if "fault (server st) (SETEX k t v) = None"
    using setex_sent [OF s] that u by (simp add: get_user_def snd_reply_200)
next
  assume a: "SETEX k t v \<in> set (sent_by st (snd (get_orders J sq select_range oq st)))"
  define key where "key = ''orders:'' @ sq (user_id oq, status oq, or_default (query_limit oq) 20,
                                           or_default (query_offset oq) 0)"
  from a have c: "check_query oq = None"
    and s: "SETEX k t v
      \<in> set (sent_by st (snd (getCachedOrFetch J key (fetch_orders select_range oq) (Some 60) st)))"
    by (auto simp: get_orders_def snd_reply_200 key_def Let_def sent_by_def split: option.splits)
  from setex_sent [OF s] show "t = 60"
    by (simp add: ttl_or_default_def)
  then show "server (snd (get_orders J sq select_range oq st)) = store k 60 v (server st)"
    if "fault (server st) (SETEX k t v) = None"
    using setex_sent [OF s] that c by (simp add: get_orders_def snd_reply_200 key_def Let_def)
qed

theorem ttl_is_fixed_by_route_witness:
  "SETEX ''users:all'' 300 ''{alice}''
     \<in> set (sent_by (connected empty_server)
               (snd (get_users J_rows select_ok (connected empty_server))))
   \<and> SETEX alice_key 300 ''{alice}''
     \<in> set (sent_by (connected empty_server)
               (snd (get_user J_rows alice_id select_ok (connected empty_server))))
   \<and> SETEX ''orders:,pending'' 60 ''{alice}''
     \<in> set (sent_by (connected empty_server)
               (snd (get_orders J_rows query_text (\<lambda>u s a b. select_ok) pending_orders
                      (connected empty_server))))
   \<and> fault (server (connected empty_server)) (SETEX ''orders:,pending'' 60 ''{alice}'') = None
   \<and> server (snd (get_orders J_rows query_text (\<lambda>u s a b. select_ok) pending_orders
                    (connected empty_server)))
       = store ''orders:,pending'' 60 ''{alice}'' (server (connected empty_server))
   \<and> entries (server (snd (get_orders J_rows query_text (\<lambda>u s a b. select_ok) pending_orders
                             (connected empty_server))))
       = [(''orders:,pending'', ''{alice}'', 60)]"
proof -
  have a: "SETEX ''users:all'' 300 ''{alice}''
     \<in> set (sent_by (connected empty_server)
               (snd (get_users J_rows select_ok (connected empty_server))))"
    by (simp add: get_users_def reply_200_def getCachedOrFetch_def redis_get_def redis_setex_def
          invoke_def send_def info_def sent_by_def lookup_def live_def ttl_or_default_def
          fetch_data_def connected_def empty_server_def select_ok_def J_rows_def)
  have b: "SETEX alice_key 300 ''{alice}''
     \<in> set (sent_by (connected empty_server)
               (snd (get_user J_rows alice_id select_ok (connected empty_server))))"
    by (simp add: get_user_def alice_id_uuid alice_key_eq reply_200_def getCachedOrFetch_def
          redis_get_def redis_setex_def invoke_def send_def info_def sent_by_def lookup_def
          live_def ttl_or_default_def fetch_data_def connected_def empty_server_def
          select_ok_def J_rows_def)
  have c: "SETEX ''orders:,pending'' 60 ''{alice}''
     \<in> set (sent_by (connected empty_server)
               (snd (get_orders J_rows query_text (\<lambda>u s a b. select_ok) pending_orders
                      (connected empty_server))))"
    by (simp add: get_orders_def reply_200_def getCachedOrFetch_def redis_get_def redis_setex_def
          invoke_def send_def info_def sent_by_def lookup_def live_def ttl_or_default_def
          fetch_orders_def or_default_def check_query_def connected_def empty_server_def
          select_ok_def J_rows_def query_text_def pending_orders_def Let_def)
  have d: "fault (server (connected empty_server)) (SETEX ''orders:,pending'' 60 ''{alice}'')
             = None"
    by (simp add: connected_def empty_server_def)
  from ttl_is_fixed_by_route
         [where st = "connected empty_server" and J = J_rows and sq = query_text
            and select_range = "\<lambda>u s a b. select_ok" and oq = pending_orders
            and k = "''orders:,pending''" and t = 60 and v = "''{alice}''"] c d
  have e: "server (snd (get_orders J_rows query_text (\<lambda>u s a b. select_ok) pending_orders
                    (connected empty_server)))
       = store ''orders:,pending'' 60 ''{alice}'' (server (connected empty_server))"
    by blast
  then have "entries (server (snd (get_orders J_rows query_text (\<lambda>u s a b. select_ok)
                                    pending_orders (connected empty_server))))
       = [(''orders:,pending'', ''{alice}'', 60)]"
    by (simp add: store_def connected_def empty_server_def)
  with a b c d e show ?thesis
    by blast
qed

text \<open>
  C8 as stated fails. The users listing is a listing query, and the entry it stores is
  kept 300 seconds, not 60.
\<close>

theorem users_listing_is_kept_300_seconds:
  "sent_by (connected empty_server) (snd (get_users J_rows select_ok (connected empty_server)))
     = [GET ''users:all'', SETEX ''users:all'' 300 ''{alice}'']
   \<and> entries (server (snd (get_users J_rows select_ok (connected empty_server))))
       = [(''users:all'', ''{alice}'', 300)]"
  by (simp add: get_users_def reply_200_def getCachedOrFetch_def redis_get_def redis_setex_def
        invoke_def send_def info_def sent_by_def lookup_def live_def ttl_or_default_def store_def
        fetch_data_def connected_def empty_server_def select_ok_def J_rows_def)






text \<open>
  C3, as the code has it. While \<open>redis\<close> is not \<^verbatim>\<open>null\<close>, a failing cache command makes the
  read fail with the cache's error: a failing \<^verbatim>\<open>GET\<close> before the fetcher is invoked, and
  a failing \<^verbatim>\<open>SETEX\<close> after the fetcher has run and succeeded, its value being dropped.
  In both cases the routes of the users (the listing, and the lookup of a user whose
  identifier passes the schema) answer 500 with the message of the cache's error. The
  same read with \<open>redis\<close> at \<^verbatim>\<open>null\<close> bypasses the cache and returns what the fetcher
  returns.
\<close>

theorem cache_error_fails_the_read:
  assumes "redis st \<noteq> None"
  shows "(fault (server st) (GET cacheKey) = Some m
            \<longrightarrow> getCachedOrFetch J cacheKey fetcher ttl st
                  = (Inl (RedisError m), send (GET cacheKey) st))
         \<and> (fault (server st) (GET cacheKey) = None \<and> \<not> truthy (lookup (server st) cacheKey)
              \<and> fetcher (world st) = (Inr v, w)
              \<and> fault (server st) (SETEX cacheKey (ttl_or_default ttl) (stringify J v)) = Some m
            \<longrightarrow> fst (getCachedOrFetch J cacheKey fetcher ttl st) = Inl (RedisError m)
                \<and> fetches (snd (getCachedOrFetch J cacheKey fetcher ttl st)) = Suc (fetches st)
                \<and> world (snd (getCachedOrFetch J cacheKey fetcher ttl st)) = w
                \<and> server (snd (getCachedOrFetch J cacheKey fetcher ttl st)) = server st)
         \<and> (fault (server st) (GET ''users:all'') = Some m
            \<longrightarrow> fst (respond (get_users J' q st))
                  = \<lparr>code = 500, body = Failure ''Internal Server Error'' m\<rparr>)
         \<and> (uuid_format uid \<and> fault (server st) (GET (''user:'' @ uid)) = Some m
            \<longrightarrow> fst (respond (get_user J' uid q st))
                  = \<lparr>code = 500, body = Failure ''Internal Server Error'' m\<rparr>)
         \<and> (fault (server st) (GET ''users:all'') = None
              \<and> \<not> truthy (lookup (server st) ''users:all'')
              \<and> q (world st) = (res, w') \<and> error res = None
              \<and> fault (server st) (SETEX ''users:all'' 300 (stringify J' (Result (data res) None)))
                  = Some m
            \<longrightarrow> fst (respond (get_users J' q st))
                  = \<lparr>code = 500, body = Failure ''Internal Server Error'' m\<rparr>)
         \<and> (uuid_format uid \<and> fault (server st) (GET (''user:'' @ uid)) = None
              \<and> \<not> truthy (lookup (server st) (''user:'' @ uid))
              \<and> q (world st) = (res, w') \<and> error res = None
              \<and> fault (server st)
                   (SETEX (''user:'' @ uid) 300 (stringify J' (Result (data res) None))) = Some m
            \<longrightarrow> fst (respond (get_user J' uid q st))
                  = \<lparr>code = 500, body = Failure ''Internal Server Error'' m\<rparr>)
         \<and> fst (getCachedOrFetch J cacheKey fetcher ttl (st\<lparr>redis := None\<rparr>))
               = fst (fetcher (world st))"
  using assms
  by (auto simp: getCachedOrFetch_get_fails getCachedOrFetch_miss getCachedOrFetch_null
        invoke_def send_def redis_setex_def get_users_def get_user_def reply_200_def
        respond_def errorHandler_def fetch_data_def ttl_or_default_def
        simp del: stringmatchlen.simps split: prod.splits)

theorem cache_error_fails_the_read_witness:
  "redis (connected broken_server) \<noteq> None
   \<and> fault (server (connected broken_server)) (GET ''user:42'') = Some ''Connection is closed.''
   \<and> getCachedOrFetch J_text ''user:42'' fetch_alice None (connected broken_server)
       = (Inl (RedisError ''Connection is closed.''), send (GET ''user:42'') (connected broken_server))
   \<and> redis (connected readonly_server) \<noteq> None
   \<and> fault (server (connected readonly_server)) (GET ''user:42'') = None
   \<and> \<not> truthy (lookup (server (connected readonly_server)) ''user:42'')
   \<and> fetch_alice (world (connected readonly_server)) = (Inr ''alice'', 1)
   \<and> fault (server (connected readonly_server))
        (SETEX ''user:42'' (ttl_or_default None) (stringify J_text ''alice''))
       = Some ''READONLY replica''
   \<and> fst (getCachedOrFetch J_text ''user:42'' fetch_alice None (connected readonly_server))
       = Inl (RedisError ''READONLY replica'')
   \<and> fetches (snd (getCachedOrFetch J_text ''user:42'' fetch_alice None
                     (connected readonly_server))) = 1
   \<and> uuid_format alice_id
   \<and> fault (server (connected broken_server)) (GET (''user:'' @ alice_id))
       = Some ''Connection is closed.''
   \<and> fst (respond (get_user J_rows alice_id select_ok (connected broken_server)))
       = \<lparr>code = 500, body = Failure ''Internal Server Error'' ''Connection is closed.''\<rparr>"
proof -
  have a: "redis (connected broken_server) \<noteq> None"
    and b: "fault (server (connected broken_server)) (GET ''user:42'')
              = Some ''Connection is closed.''"
    and b': "fault (server (connected broken_server)) (GET (''user:'' @ alice_id))
              = Some ''Connection is closed.''"
    by (simp_all add: connected_def broken_server_def)
  have c: "redis (connected readonly_server) \<noteq> None"
    and d: "fault (server (connected readonly_server)) (GET ''user:42'') = None"
    and e: "\<not> truthy (lookup (server (connected readonly_server)) ''user:42'')"
    and f: "fetch_alice (world (connected readonly_server)) = (Inr ''alice'', 1)"
    and g: "fault (server (connected readonly_server))
              (SETEX ''user:42'' (ttl_or_default None) (stringify J_text ''alice''))
            = Some ''READONLY replica''"
    by (simp_all add: connected_def readonly_server_def lookup_def live_def fetch_alice_def)
  note T = cache_error_fails_the_read
      [OF a, where cacheKey = "''user:42''" and m = "''Connection is closed.''" and J = J_text
         and fetcher = fetch_alice and ttl = None and uid = alice_id and J' = J_rows
         and q = select_ok]
  note first = T [THEN conjunct1, rule_format, OF b]
  note route = T [THEN conjunct2, THEN conjunct2, THEN conjunct2, THEN conjunct1, rule_format,
                  OF conjI [OF alice_id_uuid b']]
  note second = cache_error_fails_the_read
      [OF c, where cacheKey = "''user:42''" and m = "''READONLY replica''" and J = J_text
         and fetcher = fetch_alice and ttl = None and v = "''alice''" and w = 1,
       THEN conjunct2, THEN conjunct1, rule_format, OF conjI [OF d conjI [OF e conjI [OF f g]]]]
  from first second route a b b' c d e f g alice_id_uuid show ?thesis
    by (simp add: connected_def)
qed

text \<open>
  C3 as stated fails. With the client present and the connection closed, the read of a
  user is not answered from the fetcher: \<open>getCachedOrFetch\<close> fails with the cache's error
  and the fetcher is not invoked; the listing of the users and the lookup of the user of
  \<open>alice_id\<close> are answered 500.
\<close>

theorem cache_error_reaches_the_reader:
  "fst (getCachedOrFetch J_text alice_key fetch_alice None (connected broken_server))
     = Inl (RedisError ''Connection is closed.'')
   \<and> world (snd (getCachedOrFetch J_text alice_key fetch_alice None (connected broken_server)))
       = world (connected broken_server)
   \<and> fetches (snd (getCachedOrFetch J_text alice_key fetch_alice None
                     (connected broken_server))) = 0
   \<and> fst (respond (get_users J_rows select_ok (connected broken_server)))
       = \<lparr>code = 500, body = Failure ''Internal Server Error'' ''Connection is closed.''\<rparr>
   \<and> fst (respond (get_user J_rows alice_id select_ok (connected broken_server)))
       = \<lparr>code = 500, body = Failure ''Internal Server Error'' ''Connection is closed.''\<rparr>"
  by (simp add: getCachedOrFetch_def redis_get_def send_def connected_def broken_server_def
        get_users_def get_user_def alice_id_uuid reply_200_def respond_def errorHandler_def)

text \<open>
  C4, as the code has it. After a write that the persistent store has accepted, and with
  \<open>redis\<close> not \<^verbatim>\<open>null\<close>, a failing invalidation makes the request fail: the handler of a
  create, and that of an update or a delete of a user whose identifier passes the
  schema, ends with the cache's error, whichever of its invalidations fails; the client
  is answered 500 with the message of that error, and the write stays done. An
  invalidation fails when the enumeration fails, and when keys match and their deletion
  fails. The same writes with \<open>redis\<close> at \<^verbatim>\<open>null\<close> skip the invalidation and are
  answered with success.
\<close>

theorem invalidation_failure_fails_the_write:
  assumes "q (world st) = (res, w)" and "error res = None" and "redis st \<noteq> None"
  shows "(insert_single new_id = q
              \<and> invalidateCache ''users:*'' (st\<lparr>world := w\<rparr>) = (Inl e, st1)
            \<longrightarrow> respond (post_users new_id insert_single st)
                  = (\<lparr>code = 500, body = Failure ''Internal Server Error'' (message e)\<rparr>,
                     info (Error_logged e) st1)
                \<and> world (snd (respond (post_users new_id insert_single st))) = w)
         \<and> (uuid_format uid
              \<and> invalidateCache (''user:'' @ uid) (st\<lparr>world := w\<rparr>) = (Inl e, st1)
            \<longrightarrow> respond (patch_user uid q st)
                  = (\<lparr>code = 500, body = Failure ''Internal Server Error'' (message e)\<rparr>,
                     info (Error_logged e) st1)
                \<and> respond (delete_user uid q st)
                  = (\<lparr>code = 500, body = Failure ''Internal Server Error'' (message e)\<rparr>,
                     info (Error_logged e) st1)
                \<and> world (snd (respond (patch_user uid q st))) = w
                \<and> world (snd (respond (delete_user uid q st))) = w)
         \<and> (uuid_format uid
              \<and> invalidateCache (''user:'' @ uid) (st\<lparr>world := w\<rparr>) = (Inr (), st1)
              \<and> invalidateCache ''users:*'' st1 = (Inl e, st2)
            \<longrightarrow> respond (patch_user uid q st)
                  = (\<lparr>code = 500, body = Failure ''Internal Server Error'' (message e)\<rparr>,
                     info (Error_logged e) st2)
                \<and> respond (delete_user uid q st)
                  = (\<lparr>code = 500, body = Failure ''Internal Server Error'' (message e)\<rparr>,
                     info (Error_logged e) st2)
                \<and> world (snd (respond (patch_user uid q st))) = w
                \<and> world (snd (respond (delete_user uid q st))) = w)
         \<and> (fault (server st) (KEYS pattern) = Some m
            \<longrightarrow> invalidateCache pattern (st\<lparr>world := w\<rparr>)
                  = (Inl (RedisError m), send (KEYS pattern) (st\<lparr>world := w\<rparr>)))
         \<and> (fault (server st) (KEYS pattern) = None \<and> matching (server st) pattern \<noteq> []
              \<and> fault (server st) (DEL (matching (server st) pattern)) = Some m
            \<longrightarrow> invalidateCache pattern (st\<lparr>world := w\<rparr>)
                  = (Inl (RedisError m),
                     send (DEL (matching (server st) pattern))
                       (send (KEYS pattern) (st\<lparr>world := w\<rparr>))))
         \<and> (insert_single new_id = q
            \<longrightarrow> fst (post_users new_id insert_single (st\<lparr>redis := None\<rparr>))
                  = Inr \<lparr>code = 201, body = Payload (Result (data res) None)\<rparr>)
         \<and> (uuid_format uid
            \<longrightarrow> fst (patch_user uid q (st\<lparr>redis := None\<rparr>))
                  = Inr \<lparr>code = 200, body = Payload (Result (data res) None)\<rparr>
                \<and> fst (delete_user uid q (st\<lparr>redis := None\<rparr>))
                  = Inr \<lparr>code = 204, body = Null_body\<rparr>)"
proof -
  have w1: "world st1 = w" if "invalidateCache p (st\<lparr>world := w\<rparr>) = (r, st1)" for p r
    using world_invalidateCache [of p "st\<lparr>world := w\<rparr>"] that by simp
  have w2: "world st2 = w"
    if "invalidateCache p (st\<lparr>world := w\<rparr>) = (r, st1)" "invalidateCache p' st1 = (r', st2)"
    for p p' r r'
    using world_invalidateCache [of p' st1] w1 [OF that(1)] that(2) by simp
  show ?thesis
    using assms w1 w2
    by (auto simp: post_users_def patch_user_def delete_user_def respond_def errorHandler_def
          invalidateCache_null info_def
          simp del: stringmatchlen.simps)
       (auto simp: invalidateCache_def redis_keys_def redis_del_def send_def)
qed
theorem invalidation_failure_fails_the_write_witness:
  "select_ok (world (connected keys_disabled_server))
     = (\<lparr>data = ''alice'', error = None, count = Some 1\<rparr>, 1)
   \<and> error \<lparr>data = ''alice'', error = None, count = Some 1\<rparr> = None
   \<and> redis (connected keys_disabled_server) \<noteq> None
   \<and> uuid_format alice_id
   \<and> fault (server (connected keys_disabled_server)) (KEYS (''user:'' @ alice_id))
       = Some ''ERR unknown command KEYS''
   \<and> fst (respond (patch_user alice_id select_ok (connected keys_disabled_server)))
       = \<lparr>code = 500, body = Failure ''Internal Server Error'' ''ERR unknown command KEYS''\<rparr>
   \<and> world (snd (respond (patch_user alice_id select_ok (connected keys_disabled_server)))) = 1"
proof -
  have a: "select_ok (world (connected keys_disabled_server))
             = (\<lparr>data = ''alice'', error = None, count = Some 1\<rparr>, 1)"
    and b: "error \<lparr>data = ''alice'', error = None, count = Some 1\<rparr> = None"
    and c: "redis (connected keys_disabled_server) \<noteq> None"
    and d: "fault (server (connected keys_disabled_server)) (KEYS (''user:'' @ alice_id))
              = Some ''ERR unknown command KEYS''"
    by (simp_all add: connected_def keys_disabled_server_def select_ok_def)
  note T = invalidation_failure_fails_the_write
      [where q = select_ok and st = "connected keys_disabled_server" and w = 1
         and res = "\<lparr>data = ''alice'', error = None, count = Some 1\<rparr>"
         and pattern = "''user:'' @ alice_id" and m = "''ERR unknown command KEYS''"
         and uid = alice_id and e = "RedisError ''ERR unknown command KEYS''"
         and ?st1.0 = "send (KEYS (''user:'' @ alice_id))
                         ((connected keys_disabled_server)\<lparr>world := 1\<rparr>)",
       OF a b c]
  from T d have failed:
    "invalidateCache (''user:'' @ alice_id) ((connected keys_disabled_server)\<lparr>world := 1\<rparr>)
       = (Inl (RedisError ''ERR unknown command KEYS''),
          send (KEYS (''user:'' @ alice_id)) ((connected keys_disabled_server)\<lparr>world := 1\<rparr>))"
    by blast
  with T alice_id_uuid
  have "respond (patch_user alice_id select_ok (connected keys_disabled_server))
       = (\<lparr>code = 500,
           body = Failure ''Internal Server Error''
                    (message (RedisError ''ERR unknown command KEYS''))\<rparr>,
          info (Error_logged (RedisError ''ERR unknown command KEYS''))
            (send (KEYS (''user:'' @ alice_id))
               ((connected keys_disabled_server)\<lparr>world := 1\<rparr>)))"
    by blast
  with a b c d alice_id_uuid show ?thesis
    by (simp add: info_def send_def)
qed

text \<open>
  C4 as stated fails. A user is created, and the user of \<open>alice_id\<close> is updated: each
  time the persistent store accepts the write (the world has moved on), the enumeration
  of the keys then fails, and the client is told 500 instead of success.
\<close>

theorem failed_invalidation_is_reported_as_failure:
  "fst (respond (post_users fresh_id insert_ok (connected keys_disabled_server)))
     = \<lparr>code = 500, body = Failure ''Internal Server Error'' ''ERR unknown command KEYS''\<rparr>
   \<and> world (snd (respond (post_users fresh_id insert_ok (connected keys_disabled_server)))) = 1
   \<and> fst (post_users fresh_id insert_ok (connected keys_disabled_server))
       = Inl (RedisError ''ERR unknown command KEYS'')
   \<and> fst (respond (patch_user alice_id select_ok (connected keys_disabled_server)))
       = \<lparr>code = 500, body = Failure ''Internal Server Error'' ''ERR unknown command KEYS''\<rparr>
   \<and> world (snd (respond (patch_user alice_id select_ok (connected keys_disabled_server)))) = 1
   \<and> fst (patch_user alice_id select_ok (connected keys_disabled_server))
       = Inl (RedisError ''ERR unknown command KEYS'')"
  by (simp add: post_users_def patch_user_def alice_id_uuid invalidateCache_def redis_keys_def
        send_def info_def respond_def errorHandler_def connected_def keys_disabled_server_def
        select_ok_def insert_ok_def)

text \<open>
  C5, as the code has it. Let the persistent store accept the write, let the Redis server
  fail no command, and let the requests be served one after the other, so that no read
  is in flight while the write is served. When an update or a delete of the user \<open>uid\<close>
  (an identifier that passes the schema) is answered with success, the key \<^verbatim>\<open>user:\<close>\<open>uid\<close>
  and every key that begins with \<^verbatim>\<open>users:\<close> have been purged. When a create of a user
  under the fresh identifier \<open>uid\<close> is answered with success, the keys that begin with
  \<^verbatim>\<open>users:\<close> have been purged, and there is no entry under \<^verbatim>\<open>user:\<close>\<open>uid\<close>, since the
  identifiers under which the program stores users are UUIDs (every run of the process
  keeps it so, lemma \<open>user_keys_run\<close>) and a fresh identifier is none. In each case, in the state that comes with the answer, the server has no entry
  for such a key \<open>k\<close>, and the next \<open>getCachedOrFetch\<close> for \<open>k\<close> applies its fetcher to the
  world once and, for a positive time to live, returns what the fetcher returns.
\<close>

theorem successful_writes_purge_the_cache:
  assumes "\<forall>c. fault (server st) c = None"
    and "q (world st) = (res, w)" and "error res = None"
    and "k = ''user:'' @ uid \<or> take 6 k = ''users:''"
  shows "(uuid_format uid \<longrightarrow>
            fst (patch_user uid q st) = Inr \<lparr>code = 200, body = Payload (Result (data res) None)\<rparr>
          \<and> fst (delete_user uid q st) = Inr \<lparr>code = 204, body = Null_body\<rparr>
          \<and> (\<forall>s' \<in> {snd (patch_user uid q st), snd (delete_user uid q st)}.
                (redis st \<noteq> None \<longrightarrow> lookup (server s') k = None)
                \<and> world (snd (getCachedOrFetch J k f ttl s')) = snd (f (world s'))
                \<and> fetches (snd (getCachedOrFetch J k f ttl s')) = Suc (fetches s')
                \<and> (0 < ttl_or_default ttl
                     \<longrightarrow> fst (getCachedOrFetch J k f ttl s') = fst (f (world s')))))
         \<and> (nanoid_format uid \<and> user_keys_are_uuids (server st) \<and> insert_single uid = q \<longrightarrow>
            fst (post_users uid insert_single st)
              = Inr \<lparr>code = 201, body = Payload (Result (data res) None)\<rparr>
          \<and> (\<forall>s' \<in> {snd (post_users uid insert_single st)}.
                (redis st \<noteq> None \<longrightarrow> lookup (server s') k = None)
                \<and> world (snd (getCachedOrFetch J k f ttl s')) = snd (f (world s'))
                \<and> fetches (snd (getCachedOrFetch J k f ttl s')) = Suc (fetches s')
                \<and> (0 < ttl_or_default ttl
                     \<longrightarrow> fst (getCachedOrFetch J k f ttl s') = fst (f (world s')))))"
proof -
  note nofault = assms(1) and q = assms(2) and ok = assms(3) and k = assms(4)
  define s0 where "s0 = st\<lparr>world := w\<rparr>"
  define s1 where "s1 = snd (invalidateCache (''user:'' @ uid) s0)"
  define s2 where "s2 = snd (invalidateCache ''users:*'' s1)"
  define t1 where "t1 = snd (invalidateCache ''users:*'' s0)"
  have f0: "\<forall>c. fault (server s0) c = None" and r0: "redis s0 = redis st"
    and v0: "server s0 = server st"
    using nofault by (simp_all add: s0_def)
  note i1 = invalidateCache_any [OF f0, of "''user:'' @ uid" k, folded s1_def]
  then have f1: "\<forall>c. fault (server s1) c = None" and r1: "redis s1 = redis st"
    using f0 r0 by simp_all
  note i2 = invalidateCache_any [OF f1, of "''users:*''" k, folded s2_def]
  then have f2: "\<forall>c. fault (server s2) c = None" and r2: "redis s2 = redis st"
    using f1 r1 by simp_all
  note j1 = invalidateCache_any [OF f0, of "''users:*''" k, folded t1_def]
  then have g1: "\<forall>c. fault (server t1) c = None" and q1: "redis t1 = redis st"
    using f0 r0 by simp_all
  have listing_t1: "lookup (server t1) k = None" if "take 6 k = ''users:''" "redis st \<noteq> None"
    using j1 r0 that by (simp add: users_star_match)
  have listing_s2: "lookup (server s2) k = None" if "take 6 k = ''users:''" "redis st \<noteq> None"
    using i2 r1 that by (simp add: users_star_match)
  have single_s2: "lookup (server s2) k = None"
    if "uuid_format uid" "k = ''user:'' @ uid" "redis st \<noteq> None"
  proof -
    from that have m: "stringmatchlen (''user:'' @ uid) k"
      using user_key_match uuid_literal by blast
    from i1 r0 that(3) m have "lookup (server s1) k = None"
      by (simp del: stringmatchlen.simps)
    with i2 r1 that(3) show ?thesis
      by (simp del: stringmatchlen.simps)
  qed
  have fresh_t1: "lookup (server t1) k = None"
    if "nanoid_format uid" "user_keys_are_uuids (server st)" "k = ''user:'' @ uid"
       "redis st \<noteq> None"
  proof -
    from that(1-3) have "lookup (server s0) k = None"
      using no_entry_for_other_ids nanoid_not_uuid v0 by metis
    with j1 r0 that(4) show ?thesis
      by (simp del: stringmatchlen.simps)
  qed
  have purged_s2: "redis st \<noteq> None \<longrightarrow> lookup (server s2) k = None" if "uuid_format uid"
    using that k listing_s2 single_s2 by auto
  have purged_t1: "redis st \<noteq> None \<longrightarrow> lookup (server t1) k = None"
    if "nanoid_format uid" "user_keys_are_uuids (server st)"
    using that k listing_t1 fresh_t1 by auto
  have patch: "patch_user uid q st
                 = (Inr \<lparr>code = 200, body = Payload (Result (data res) None)\<rparr>, s2)"
    and del: "delete_user uid q st = (Inr \<lparr>code = 204, body = Null_body\<rparr>, s2)"
    if "uuid_format uid"
    using that q ok i1 i2
    by (simp_all add: patch_user_def delete_user_def s0_def [symmetric])
  have post: "post_users uid insert_single st
                = (Inr \<lparr>code = 201, body = Payload (Result (data res) None)\<rparr>, t1)"
    if "insert_single uid = q"
    using that q ok j1 by (simp add: post_users_def s0_def [symmetric])
  have again_s2: "world (snd (getCachedOrFetch J k f ttl s2)) = snd (f (world s2))
         \<and> fetches (snd (getCachedOrFetch J k f ttl s2)) = Suc (fetches s2)
         \<and> (0 < ttl_or_default ttl \<longrightarrow> fst (getCachedOrFetch J k f ttl s2) = fst (f (world s2)))"
    if "uuid_format uid"
    using refetch_outcome [OF f2, of k J f ttl] purged_s2 [OF that] r2 by simp
  have again_t1: "world (snd (getCachedOrFetch J k f ttl t1)) = snd (f (world t1))
         \<and> fetches (snd (getCachedOrFetch J k f ttl t1)) = Suc (fetches t1)
         \<and> (0 < ttl_or_default ttl \<longrightarrow> fst (getCachedOrFetch J k f ttl t1) = fst (f (world t1)))"
    if "nanoid_format uid" "user_keys_are_uuids (server st)"
    using refetch_outcome [OF g1, of k J f ttl] purged_t1 [OF that] q1 by simp
  show ?thesis
    using patch del post purged_s2 purged_t1 again_s2 again_t1 by simp
qed
theorem successful_writes_purge_the_cache_witness:
  "(\<forall>c. fault (server warm_cache) c = None)
   \<and> select_ok (world warm_cache)
       = (\<lparr>data = ''alice'', error = None, count = Some 1\<rparr>, 3)
   \<and> error \<lparr>data = ''alice'', error = None, count = Some 1\<rparr> = None
   \<and> alice_key = ''user:'' @ alice_id
   \<and> uuid_format alice_id
   \<and> redis warm_cache \<noteq> None
   \<and> lookup (server warm_cache) alice_key = Some ''{alice}''
   \<and> fst (patch_user alice_id select_ok warm_cache)
       = Inr \<lparr>code = 200, body = Payload (Result ''alice'' None)\<rparr>
   \<and> lookup (server (snd (patch_user alice_id select_ok warm_cache))) alice_key
       = None
   \<and> world (snd (getCachedOrFetch J_text alice_key fetch_alice None
                   (snd (patch_user alice_id select_ok warm_cache))))
       = snd (fetch_alice (world (snd (patch_user alice_id select_ok warm_cache))))
   \<and> nanoid_format fresh_id
   \<and> user_keys_are_uuids (server warm_cache)
   \<and> insert_ok fresh_id (world warm_cache)
       = (\<lparr>data = fresh_id, error = None, count = None\<rparr>, 3)
   \<and> fst (post_users fresh_id insert_ok warm_cache)
       = Inr \<lparr>code = 201, body = Payload (Result fresh_id None)\<rparr>
   \<and> lookup (server (snd (post_users fresh_id insert_ok warm_cache)))
        (''user:'' @ fresh_id) = None
   \<and> fst (getCachedOrFetch J_text (''user:'' @ fresh_id) fetch_alice None
             (snd (post_users fresh_id insert_ok warm_cache)))
       = fst (fetch_alice (world (snd (post_users fresh_id insert_ok warm_cache))))"
proof -
  have a: "\<forall>c. fault (server warm_cache) c = None"
    and b: "select_ok (world warm_cache)
              = (\<lparr>data = ''alice'', error = None, count = Some 1\<rparr>, 3)"
    and c: "error \<lparr>data = ''alice'', error = None, count = Some 1\<rparr> = None"
    and d: "redis warm_cache \<noteq> None"
    and e: "insert_ok fresh_id (world warm_cache)
              = (\<lparr>data = fresh_id, error = None, count = None\<rparr>, 3)"
    and e': "error \<lparr>data = fresh_id, error = None, count = None\<rparr> = None"
    by (simp_all add: warm_cache_eq select_ok_def insert_ok_def)
  have f: "lookup (server warm_cache) alice_key = Some ''{alice}''"
    by (simp add: warm_cache_eq lookup_def live_def)
  have "user_keys_are_uuids (server (startup empty_server (0::nat)))"
    by (simp add: startup_def redis_ping_def send_def empty_server_def user_keys_are_uuids_def)
  then have g: "user_keys_are_uuids (server warm_cache)"
    unfolding warm_cache_def by (rule user_keys_run) simp
  have h: "0 < ttl_or_default None"
    by (simp add: ttl_or_default_def)
  note T = successful_writes_purge_the_cache
      [where st = warm_cache and q = select_ok and w = 3
         and res = "\<lparr>data = ''alice'', error = None, count = Some 1\<rparr>"
         and uid = alice_id and k = alice_key and J = J_text and f = fetch_alice
         and ttl = None, OF a b c disjI1 [OF alice_key_eq]]
  from T alice_id_uuid d
  have update:
    "fst (patch_user alice_id select_ok warm_cache)
       = Inr \<lparr>code = 200, body = Payload (Result ''alice'' None)\<rparr>
     \<and> lookup (server (snd (patch_user alice_id select_ok warm_cache))) alice_key
         = None
     \<and> world (snd (getCachedOrFetch J_text alice_key fetch_alice None
                   (snd (patch_user alice_id select_ok warm_cache))))
         = snd (fetch_alice
                  (world (snd (patch_user alice_id select_ok warm_cache))))"
    by simp
  note U = successful_writes_purge_the_cache
      [where st = warm_cache and q = "insert_ok fresh_id" and w = 3
         and res = "\<lparr>data = fresh_id, error = None, count = None\<rparr>"
         and uid = fresh_id and k = "''user:'' @ fresh_id" and J = J_text and f = fetch_alice
         and ttl = None and insert_single = insert_ok, OF a e e' disjI1 [OF refl]]
  from U fresh_id_nanoid g d h
  have create:
    "fst (post_users fresh_id insert_ok warm_cache)
       = Inr \<lparr>code = 201, body = Payload (Result fresh_id None)\<rparr>
     \<and> lookup (server (snd (post_users fresh_id insert_ok warm_cache)))
          (''user:'' @ fresh_id) = None
     \<and> fst (getCachedOrFetch J_text (''user:'' @ fresh_id) fetch_alice None
               (snd (post_users fresh_id insert_ok warm_cache)))
         = fst (fetch_alice
                  (world (snd (post_users fresh_id insert_ok warm_cache))))"
    by (simp del: stringmatchlen.simps)
  from a b c d e f g update create alice_key_eq alice_id_uuid fresh_id_nanoid show ?thesis
    by blast
qed

text \<open>
  C5 as stated fails when a read is in flight. A read of the user of \<open>alice_id\<close> misses
  and fetches the name \<^verbatim>\<open>alice\<close>; before the outcome of its fetcher arrives, the user is
  renamed to \<^verbatim>\<open>bob\<close>: the update purges (there is nothing to purge yet) and is answered
  200; then the read resumes and stores \<^verbatim>\<open>alice\<close>. The next \<open>getCachedOrFetch\<close> for the key
  of the user is a hit: it returns \<^verbatim>\<open>alice\<close> and does not invoke the fetcher, which would
  have returned \<^verbatim>\<open>bob\<close>. The two parts are the read itself: run one after the other they
  are \<open>getCachedOrFetch\<close> (lemma \<open>read_in_two_parts\<close>).
\<close>

theorem read_in_flight_restores_stale_entry:
  "fst (begin_read J_text alice_key read_name (serving ''alice'')) = Fetching (Inr ''alice'')
   \<and> fst (patch_user alice_id rename_bob read_in_flight)
       = Inr \<lparr>code = 200, body = Payload (Result ''bob'' None)\<rparr>
   \<and> world update_answered = ''bob''
   \<and> lookup (server update_answered) alice_key = None
   \<and> fst (end_read J_text alice_key None (Inr ''alice'') update_answered) = Inr ''alice''
   \<and> lookup (server read_completed) alice_key = Some (quote ''alice'')
   \<and> fst (getCachedOrFetch J_text alice_key read_name None read_completed) = Inr ''alice''
   \<and> fetches (snd (getCachedOrFetch J_text alice_key read_name None read_completed))
       = fetches read_completed
   \<and> world (snd (getCachedOrFetch J_text alice_key read_name None read_completed)) = ''bob''
   \<and> fst (read_name (world read_completed)) = Inr ''bob''"
proof -
  have s1: "begin_read J_text alice_key read_name (serving ''alice'')
              = (Fetching (Inr ''alice''),
                 \<lparr>redis = Some Client, server = empty_server, issued = [GET alice_key],
                  app_log = [], fetches = 1, world = ''alice''\<rparr>)"
    by (simp add: begin_read_def redis_get_def invoke_def send_def lookup_def live_def
          serving_def empty_server_def read_name_def)
  then have f1: "read_in_flight
              = \<lparr>redis = Some Client, server = empty_server, issued = [GET alice_key],
                 app_log = [], fetches = 1, world = ''alice''\<rparr>"
    by (simp add: read_in_flight_def)
  have s2: "patch_user alice_id rename_bob read_in_flight
              = (Inr \<lparr>code = 200, body = Payload (Result ''bob'' None)\<rparr>,
                 \<lparr>redis = Some Client, server = empty_server,
                  issued = [GET alice_key, KEYS (''user:'' @ alice_id), KEYS ''users:*''],
                  app_log = [], fetches = 1, world = ''bob''\<rparr>)"
    by (simp add: f1 patch_user_def alice_id_uuid invalidateCache_def redis_keys_def send_def
          matching_def live_def empty_server_def rename_bob_def
          del: stringmatchlen.simps)
  then have f2: "update_answered
              = \<lparr>redis = Some Client, server = empty_server,
                 issued = [GET alice_key, KEYS (''user:'' @ alice_id), KEYS ''users:*''],
                 app_log = [], fetches = 1, world = ''bob''\<rparr>"
    by (simp add: update_answered_def)
  have s3: "end_read J_text alice_key None (Inr ''alice'') update_answered
              = (Inr ''alice'',
                 \<lparr>redis = Some Client,
                  server = \<lparr>entries = [(alice_key, quote ''alice'', 300)], clock = 0,
                            fault = (\<lambda>c. None)\<rparr>,
                  issued = [GET alice_key, KEYS (''user:'' @ alice_id), KEYS ''users:*'',
                            SETEX alice_key 300 (quote ''alice'')],
                  app_log = [Cache_set alice_key], fetches = 1, world = ''bob''\<rparr>)"
    by (simp add: f2 end_read_def redis_setex_def send_def info_def store_def
          ttl_or_default_def empty_server_def J_text_def)
  then have f3: "read_completed
              = \<lparr>redis = Some Client,
                 server = \<lparr>entries = [(alice_key, quote ''alice'', 300)], clock = 0,
                           fault = (\<lambda>c. None)\<rparr>,
                 issued = [GET alice_key, KEYS (''user:'' @ alice_id), KEYS ''users:*'',
                           SETEX alice_key 300 (quote ''alice'')],
                 app_log = [Cache_set alice_key], fetches = 1, world = ''bob''\<rparr>"
    by (simp add: read_completed_def)
  have s4: "getCachedOrFetch J_text alice_key read_name None read_completed
              = (Inr ''alice'', info (Cache_hit alice_key) (send (GET alice_key) read_completed))"
    by (simp add: f3 getCachedOrFetch_def redis_get_def send_def info_def lookup_def live_def
          J_text_def quote_def)
  have a: "world update_answered = ''bob''"
    and b: "lookup (server update_answered) alice_key = None"
    by (simp_all add: f2 lookup_def live_def empty_server_def)
  have c: "lookup (server read_completed) alice_key = Some (quote ''alice'')"
    and d: "world read_completed = ''bob''"
    by (simp_all add: f3 lookup_def live_def)
  show ?thesis
    by (simp add: s1 s2 s3 s4 a b c d info_def send_def read_name_def)
qed

end
